theory Spec2Isabelle
  imports Main
begin

text \<open>
  A model of \<open>fixMyRefs2025_7.py\<close>: the copy-suffix pattern, the directory search, the
  slash conversion and \<open>relink_references\<close>, the batch that relinks broken references. The
  window code is modelled only as far as it decides which references a batch receives.
\<close>

section \<open>Strings as Python sees them\<close>

text \<open>
  A Python \<open>str\<close> is a sequence of code points. The model uses \<open>string\<close> and reads a
  \<open>char\<close> as one code point below 256, so \<open>length\<close> is Python's \<open>len\<close> on such
  strings. On this range \<open>\d\<close> of the \<open>re\<close> module matches exactly the ten ASCII
  digits, and \<open>str.isspace\<close> holds for the code points listed in \<open>is_space\<close>.
\<close>

definition newline :: char where
  "newline = CHR 0x0A"

definition quote :: string where
  "quote = [CHR 0x27]"

definition backslash :: char where
  "backslash = CHR 0x5C"

definition is_digit :: "char \<Rightarrow> bool" where
  "is_digit c = (c \<in> set ''0123456789'')"

definition is_space :: "char \<Rightarrow> bool" where
  "is_space c = ((of_char c :: nat) \<in> set [9, 10, 11, 12, 13, 28, 29, 30, 31, 32, 133, 160])"

definition py_strip :: "string \<Rightarrow> string" where
  \<comment> \<open>\<open>s.strip()\<close>\<close>
  "py_strip s = rev (dropWhile is_space (rev (dropWhile is_space s)))"

fun contains :: "string \<Rightarrow> string \<Rightarrow> bool" where
  \<comment> \<open>\<open>needle in hay\<close> on strings\<close>
  "contains needle [] = (needle = [])"
| "contains needle (c # cs) = (take (length needle) (c # cs) = needle \<or> contains needle cs)"

fun join_lines :: "string list \<Rightarrow> string" where
  \<comment> \<open>\<open>"\n".join(xs)\<close>\<close>
  "join_lines [] = []"
| "join_lines [x] = x"
| "join_lines (x # y # ys) = x @ [newline] @ join_lines (y # ys)"

section \<open>The copy-suffix pattern (line 18)\<close>

text \<open>
  \<open>copy_suffix_pattern = re.compile(r"(.+)({\d+})$")\<close>, used only through
  \<open>copy_suffix_pattern.match(file_name_raw)\<close> and \<open>match.group(1)\<close>.

  \<open>suffix_here r\<close> is the rest of the pattern, \<open>({\d+})$\<close>, matched against the whole
  remaining input \<open>r\<close>: an opening brace, the longest run of digits (at least one; a shorter
  run cannot help, the next pattern character is the closing brace), the closing brace, and
  then \<open>$\<close>, which holds at the very end and also just before a final line feed.

  \<open>group1 acc s\<close> is the backtracking search for group 1, \<open>(.+)\<close>, started at the
  beginning of the string (\<open>match\<close> anchors there): \<open>acc\<close> is what the group has consumed.
  The dot takes one more character unless it is a line feed; being greedy, the search first
  tries to let the group grow further and only on failure tries the rest of the pattern at
  the current position.
\<close>

definition suffix_here :: "string \<Rightarrow> bool" where
  "suffix_here r =
     (case r of
        [] \<Rightarrow> False
      | c # r' \<Rightarrow>
          c = CHR ''{'' \<and>
          (let ds = takeWhile is_digit r'; t = dropWhile is_digit r'
           in ds \<noteq> [] \<and> (t = ''}'' \<or> t = [CHR ''}'', newline])))"

fun group1 :: "string \<Rightarrow> string \<Rightarrow> string option" where
  "group1 acc [] = None"
| "group1 acc (c # cs) =
     (if c = newline then None
      else (case group1 (acc @ [c]) cs of
              Some b \<Rightarrow> Some b
            | None \<Rightarrow> if suffix_here cs then Some (acc @ [c]) else None))"

definition copy_suffix_match :: "string \<Rightarrow> string option" where
  \<comment> \<open>\<open>copy_suffix_pattern.match(s)\<close>: \<open>None\<close>, or \<open>Some (match.group(1))\<close>\<close>
  "copy_suffix_match s = group1 [] s"

definition clean_name :: "string \<Rightarrow> string" where
  \<comment> \<open>lines 197-200 and 254-257\<close>
  "clean_name file_name_raw =
     (case copy_suffix_match file_name_raw of
        Some g \<Rightarrow> g
      | None \<Rightarrow> file_name_raw)"

section \<open>Paths and the file system\<close>

text \<open>
  \<open>os.path.basename\<close> and \<open>os.path.join\<close> are the POSIX ones (\<open>posixpath\<close>): the
  separator is the forward slash only.
\<close>

definition basename :: "string \<Rightarrow> string" where
  \<comment> \<open>\<open>i = p.rfind('/') + 1; return p[i:]\<close>\<close>
  "basename p = rev (takeWhile (\<lambda>c. c \<noteq> CHR ''/'') (rev p))"

definition path_join :: "string \<Rightarrow> string \<Rightarrow> string" where
  \<comment> \<open>\<open>os.path.join(a, b)\<close> with two arguments\<close>
  "path_join a b =
     (if take 1 b = ''/'' then b
      else if a = [] \<or> last a = CHR ''/'' then a @ b
      else a @ ''/'' @ b)"

definition convert_slashes :: "string \<Rightarrow> bool \<Rightarrow> string" where
  \<comment> \<open>lines 167-171\<close>
  "convert_slashes path convert_to_forward =
     (if convert_to_forward then map (\<lambda>c. if c = backslash then CHR ''/'' else c) path
      else path)"

text \<open>
  The file system is not part of the program: it is a parameter, seen through the three
  calls the program makes. \<open>os.walk(top)\<close> is a generator: \<open>walk fs top\<close> is the sequence
  of \<open>(root, dirs, files)\<close> triples the iteration yields and, when the iteration then
  raises instead of ending (a \<open>ValueError\<close> for a null character in \<open>top\<close>, for
  instance), the text of the exception. \<open>os.path.exists\<close> and \<open>os.path.isdir\<close> do not
  raise. The file system does not change during a batch.
\<close>

record filesys =
  path_exists :: "string \<Rightarrow> bool"  \<comment> \<open>\<open>os.path.exists\<close>\<close>
  isdir :: "string \<Rightarrow> bool"  \<comment> \<open>\<open>os.path.isdir\<close>\<close>
  walk :: "string \<Rightarrow> (string \<times> string list \<times> string list) list \<times> string option"
    \<comment> \<open>\<open>os.walk\<close>\<close>

fun find_in_walk :: "(string \<times> string list \<times> string list) list \<Rightarrow> string \<Rightarrow> string option" where
  \<comment> \<open>the loop of lines 162-165 over the triples the walk yields\<close>
  "find_in_walk [] file_name = None"
| "find_in_walk ((root, dirs, files) # rest) file_name =
     (if file_name \<in> set files then Some (path_join root file_name)
      else find_in_walk rest file_name)"

definition find_file_in_directory :: "filesys \<Rightarrow> string \<Rightarrow> string \<Rightarrow> string + string option" where
  \<comment> \<open>lines 160-165: \<open>Inl e\<close> when the walk raises before the name is met\<close>
  "find_file_in_directory fs search_dir file_name =
     (case walk fs search_dir of
        (yielded, raised) \<Rightarrow>
          (case find_in_walk yielded file_name of
             Some found \<Rightarrow> Inr (Some found)
           | None \<Rightarrow> (case raised of Some e \<Rightarrow> Inl e | None \<Rightarrow> Inr None)))"

section \<open>The host and the session\<close>

text \<open>
  The host application is a parameter too. Its state is seen through the queries the
  program makes. Three of the program's calls can raise: the reload,
  \<open>cmds.file(new_path, loadReference=ref)\<close>, inside the \<open>try\<close> of lines 212 and 274; the
  query of the unresolved name, at line 195 outside any \<open>try\<close> and at line 252 inside the
  \<open>try\<close> of line 251; and the walk of the directory search, called at lines 201 and 258.
  An exception is the value \<open>Inl e\<close>, with \<open>e\<close> its text. The other queries return a value.
  A reload is a function from the host state to the text of the exception it raised, if
  any, and the host state it leaves.
\<close>

record host =
  ls_reference :: "string list"  \<comment> \<open>\<open>cmds.ls(type="reference")\<close>\<close>
  objExists :: "string \<Rightarrow> bool"  \<comment> \<open>\<open>cmds.objExists(ref)\<close>\<close>
  isLoaded :: "string \<Rightarrow> bool"  \<comment> \<open>\<open>cmds.referenceQuery(ref, isLoaded=True)\<close>\<close>
  filename :: "string \<Rightarrow> string"  \<comment> \<open>\<open>cmds.referenceQuery(ref, filename=True)\<close>\<close>
  unresolvedName :: "string \<Rightarrow> string + string"
    \<comment> \<open>\<open>cmds.referenceQuery(ref, filename=True, unresolvedName=True)\<close>\<close>

type_synonym loader = "string \<Rightarrow> string \<Rightarrow> host \<Rightarrow> string option \<times> host"

text \<open>
  The state of one call of \<open>relink_references\<close>: the host, the locals \<open>success\<close> and
  \<open>failed\<close>, the globals \<open>relink_log\<close> and \<open>relinked_refs\<close>, what \<open>print\<close> has
  written, and, as a history variable the program does not have, the reloads requested so
  far as pairs \<open>(new_path, ref)\<close>.
\<close>

record session =
  scene :: host
  success :: "string list"
  failed :: "string list"
  relink_log :: "string list"
  relinked_refs :: "string set"
  printed :: "string list"
  reload_calls :: "(string \<times> string) list"

record ui =
  use_single_path_state :: bool  \<comment> \<open>\<open>use_single_path_state[0]\<close>\<close>
  singlePathField :: "string option"
    \<comment> \<open>\<open>None\<close>: the field does not exist; \<open>Some t\<close>: its text\<close>
  dir_only_checkbox :: bool
  slash_convert_checkbox :: bool
  textField :: "string \<Rightarrow> string"  \<comment> \<open>the text of a per-reference field\<close>

section \<open>One reference\<close>

definition record_failure :: "string \<Rightarrow> string \<Rightarrow> session \<Rightarrow> session" where
  \<comment> \<open>\<open>failed.append(f"{ref}: {reason}"); relink_log.append(f"Failed to relink {ref}: {reason}")\<close>\<close>
  "record_failure ref reason st =
     st\<lparr>failed := failed st @ [ref @ '': '' @ reason],
        relink_log := relink_log st @ [''Failed to relink '' @ ref @ '': '' @ reason]\<rparr>"

definition skip_missing :: "string \<Rightarrow> session \<Rightarrow> session" where
  \<comment> \<open>lines 191-192 and 237-238\<close>
  "skip_missing ref st =
     st\<lparr>printed := printed st @ [''Skipping '' @ ref @ '': Reference node no longer exists.'']\<rparr>"

definition load_and_verify :: "filesys \<Rightarrow> loader \<Rightarrow> string \<Rightarrow> string \<Rightarrow> session \<Rightarrow> session" where
  \<comment> \<open>lines 211-233, and the same text at lines 273-295\<close>
  "load_and_verify fs file_load ref new_path st =
     (if new_path \<noteq> [] \<and> path_exists fs new_path then
        (case file_load new_path ref (scene st) of
           (raised, h') \<Rightarrow>
             let st' = st\<lparr>scene := h', reload_calls := reload_calls st @ [(new_path, ref)]\<rparr>
             in (case raised of
                   Some e \<Rightarrow> record_failure ref (''Error: '' @ e) st'
                 | None \<Rightarrow>
                     if isLoaded h' ref then
                       st'\<lparr>success := success st' @ [ref],
                           relink_log := relink_log st' @
                             [''Successfully relinked '' @ ref @ '' to '' @ filename h' ref],
                           relinked_refs := insert ref (relinked_refs st')\<rparr>
                     else
                       record_failure ref
                         (''Verification failed (Loaded: False, Path: '' @ quote @
                            filename h' ref @ quote @ '')'') st'))
      else record_failure ref (''Target path does not exist: '' @ quote @ new_path @ quote) st)"

definition search_clean_name ::
  "filesys \<Rightarrow> string \<Rightarrow> string \<Rightarrow> session \<Rightarrow> string + string \<times> string option" where
  \<comment> \<open>lines 195-201 and 252-258: the clean name and what the search found, or \<open>Inl e\<close>
      when the query or the walk raises\<close>
  "search_clean_name fs search_dir ref st =
     (case unresolvedName (scene st) ref of
        Inl e \<Rightarrow> Inl e
      | Inr original_path \<Rightarrow>
          let file_name_raw = basename original_path;
              clean_file_name = clean_name file_name_raw
          in (case find_file_in_directory fs search_dir clean_file_name of
                Inl e \<Rightarrow> Inl e
              | Inr found_path \<Rightarrow> Inr (clean_file_name, found_path)))"

definition load_found ::
  "filesys \<Rightarrow> loader \<Rightarrow> string \<Rightarrow> string \<Rightarrow> string \<Rightarrow> string option \<Rightarrow> session \<Rightarrow> session" where
  \<comment> \<open>lines 202-208 followed by 211-233; lines 259-265 followed by 273-295\<close>
  "load_found fs file_load search_dir ref clean_file_name found st =
     (let not_found = record_failure ref
            (''Could not find '' @ quote @ clean_file_name @ quote @ '' in '' @ search_dir @
               '' (and subdirs)'') st
      in (case found of
            Some found_path \<Rightarrow>
              if found_path \<noteq> [] then load_and_verify fs file_load ref found_path st
              else not_found
          | None \<Rightarrow> not_found))"

text \<open>
  The body of the single-path loop has no handler around the query and the search: an
  exception there leaves the loop and \<open>relink_references\<close>. The step returns the exception
  that leaves it, if any, and the state reached. The body of the per-reference loop
  catches the same exceptions (lines 266-270) and records a failure.
\<close>

definition single_path_step ::
  "filesys \<Rightarrow> loader \<Rightarrow> bool \<Rightarrow> string \<Rightarrow> string \<Rightarrow> session \<Rightarrow> string option \<times> session" where
  \<comment> \<open>the body of the loop at line 189\<close>
  "single_path_step fs file_load dir_only single_path ref st =
     (if \<not> objExists (scene st) ref then (None, skip_missing ref st)
      else if dir_only then
        (case search_clean_name fs single_path ref st of
           Inl e \<Rightarrow> (Some e, st)
         | Inr (clean_file_name, found) \<Rightarrow>
             (None, load_found fs file_load single_path ref clean_file_name found st))
      else (None, load_and_verify fs file_load ref single_path st))"

fun single_path_loop ::
  "filesys \<Rightarrow> loader \<Rightarrow> bool \<Rightarrow> string \<Rightarrow> string list \<Rightarrow> session \<Rightarrow> string option \<times> session" where
  \<comment> \<open>the loop at line 189: it ends with the list, or with the first exception\<close>
  "single_path_loop fs file_load dir_only single_path [] st = (None, st)"
| "single_path_loop fs file_load dir_only single_path (ref # refs) st =
     (case single_path_step fs file_load dir_only single_path ref st of
        (Some e, st') \<Rightarrow> (Some e, st')
      | (None, st') \<Rightarrow> single_path_loop fs file_load dir_only single_path refs st')"

definition per_reference_step ::
  "filesys \<Rightarrow> loader \<Rightarrow> bool \<Rightarrow> bool \<Rightarrow> (string \<Rightarrow> string) \<Rightarrow> string \<times> string \<Rightarrow>
     session \<Rightarrow> session" where
  \<comment> \<open>the body of the loop at line 235\<close>
  "per_reference_step fs file_load dir_only convert_to_forward text_of item st =
     (case item of
        (ref, text_field) \<Rightarrow>
          if \<not> objExists (scene st) ref then skip_missing ref st
          else
            let user_input = py_strip (text_of text_field)
            in if user_input = [] then st
               else
                 let user_input = convert_slashes user_input convert_to_forward
                 in if dir_only then
                      (if \<not> isdir fs user_input then
                         record_failure ref
                           (''Provided directory does not exist: '' @ user_input) st
                       else
                         (case search_clean_name fs user_input ref st of
                            Inl e \<Rightarrow> record_failure ref (''Error processing path: '' @ e) st
                          | Inr (clean_file_name, found) \<Rightarrow>
                              load_found fs file_load user_input ref clean_file_name found st))
                    else load_and_verify fs file_load ref user_input st)"

section \<open>The batch\<close>

definition broken_refs :: "filesys \<Rightarrow> host \<Rightarrow> string list" where
  \<comment> \<open>line 182\<close>
  "broken_refs fs h =
     filter (\<lambda>ref. \<not> contains ''sharedReferenceNode'' ref \<and> \<not> path_exists fs (filename h ref))
       (ls_reference h)"

definition max_len :: nat where
  "max_len = 1000"

definition summary_message :: "string list \<Rightarrow> string list \<Rightarrow> string" where
  \<comment> \<open>lines 297-301\<close>
  "summary_message succ fl =
     (if succ \<noteq> [] then ''Successfully relinked:'' @ [newline] @ join_lines succ @ [newline, newline]
      else []) @
     (if fl \<noteq> [] then ''Failed to relink:'' @ [newline] @ join_lines fl else [])"

definition confirmDialog :: "string \<Rightarrow> string option" where
  \<comment> \<open>lines 302-306: the message of the dialog, \<open>None\<close> when no dialog is opened\<close>
  "confirmDialog message =
     (if message \<noteq> [] then
        Some (if length message > max_len
              then take max_len message @ [newline] @ ''...(message truncated)''
              else message)
      else None)"

definition start :: "host \<Rightarrow> string list \<Rightarrow> string set \<Rightarrow> session" where
  "start h log rs =
     \<lparr>scene = h, success = [], failed = [], relink_log = log, relinked_refs = rs,
      printed = [], reload_calls = []\<rparr>"

definition run_batch ::
  "filesys \<Rightarrow> loader \<Rightarrow> ui \<Rightarrow> (string \<times> string) list \<Rightarrow> session \<Rightarrow> string option \<times> session" where
  \<comment> \<open>lines 182-295; \<open>mapping_dict\<close> is the list of the dictionary's items\<close>
  "run_batch fs file_load u mapping_dict st =
     (let dir_only = dir_only_checkbox u;
          convert_to_forward = slash_convert_checkbox u;
          refs = broken_refs fs (scene st)
      in if use_single_path_state u then
           (case singlePathField u of
              None \<Rightarrow> (None, st)
            | Some text \<Rightarrow>
                let single_path = py_strip text
                in if single_path \<noteq> [] then
                     single_path_loop fs file_load dir_only
                       (convert_slashes single_path convert_to_forward) refs st
                   else (None, st))
         else (None, fold (per_reference_step fs file_load dir_only convert_to_forward
                             (textField u)) mapping_dict st))"

definition relink_references ::
  "filesys \<Rightarrow> loader \<Rightarrow> ui \<Rightarrow> (string \<times> string) list \<Rightarrow> host \<Rightarrow> string list \<Rightarrow> string set \<Rightarrow>
     session \<times> (string + string option)" where
  \<comment> \<open>lines 174-306: the state reached and either the exception that left the function
      (\<open>Inl e\<close>; no dialog is opened) or the message of the result dialog\<close>
  "relink_references fs file_load u mapping_dict h log rs =
     (case run_batch fs file_load u mapping_dict (start h log rs) of
        (Some e, st) \<Rightarrow> (st, Inl e)
      | (None, st) \<Rightarrow> (st, Inr (confirmDialog (summary_message (success st) (failed st)))))"

section \<open>What the refreshed window offers (lines 62-67 and 90-115)\<close>

definition all_refs :: "host \<Rightarrow> string list" where
  "all_refs h = filter (\<lambda>ref. \<not> contains ''sharedReferenceNode'' ref) (ls_reference h)"

definition refs_to_display :: "bool \<Rightarrow> host \<Rightarrow> string list" where
  "refs_to_display show_all h =
     (if show_all then all_refs h else filter (\<lambda>ref. \<not> isLoaded h ref) (all_refs h))"

definition mapping_refs :: "bool \<Rightarrow> bool \<Rightarrow> host \<Rightarrow> string list" where
  \<comment> \<open>the references that get an entry in \<open>mapping_dict\<close>, in the order of insertion\<close>
  "mapping_refs show_all use_single h =
     filter (\<lambda>ref. \<not> isLoaded h ref \<and> \<not> use_single) (refs_to_display show_all h)"

section \<open>Scenes for the scenarios\<close>

text \<open>
  A library directory \<open>/lib\<close> whose only file is \<open>/lib/sub/asset.ma\<close>; a walk from a
  path with a null character raises, as \<open>os.walk\<close> does. Scenes: one reference \<open>ref1\<close>,
  not loaded, stored under the path \<open>p\<close>; two such references; the same two when
  \<open>ref1\<close> has gone. Hosts: one that loads what it is asked to and reports the file name
  with the copy number \<open>{2}\<close> of the reference, and one that returns from the reload
  without loading. And the state a first batch leaves in scenario A.
\<close>

definition lib_fs :: filesys where
  "lib_fs =
     \<lparr>path_exists = (\<lambda>p. p \<in> set [''/lib'', ''/lib/sub'', ''/lib/sub/asset.ma'']),
      isdir = (\<lambda>p. p \<in> set [''/lib'', ''/lib/sub'']),
      walk = (\<lambda>top.
        if CHR 0x00 \<in> set top then ([], Some ''embedded null byte'')
        else if top = ''/lib'' then
          ([(''/lib'', [''sub''], []), (''/lib/sub'', [], [''asset.ma''])], None)
        else if top = ''/lib/sub'' then ([(''/lib/sub'', [], [''asset.ma''])], None)
        else ([], None))\<rparr>"

definition nul_path :: string where
  "nul_path = ''/li'' @ [CHR 0x00] @ ''b''"

definition broken_scene :: "string \<Rightarrow> host" where
  "broken_scene p =
     \<lparr>ls_reference = [''ref1''], objExists = (\<lambda>r. r = ''ref1''), isLoaded = (\<lambda>r. False),
      filename = (\<lambda>r. p), unresolvedName = (\<lambda>r. Inr p)\<rparr>"

definition two_scene :: host where
  "two_scene =
     \<lparr>ls_reference = [''ref1'', ''ref2''], objExists = (\<lambda>r. r \<in> set [''ref1'', ''ref2'']),
      isLoaded = (\<lambda>r. False), filename = (\<lambda>r. ''/old/asset.ma''),
      unresolvedName = (\<lambda>r. Inr ''/old/asset.ma'')\<rparr>"

definition copy_loader :: loader where
  "copy_loader p r h =
     (None, h\<lparr>isLoaded := (isLoaded h)(r := True),
               filename := (filename h)(r := p @ ''{2}''),
               unresolvedName := (unresolvedName h)(r := Inr (p @ ''{2}''))\<rparr>)"

definition idle_loader :: loader where
  "idle_loader p r h = (None, h)"

definition shared_ui :: "bool \<Rightarrow> string \<Rightarrow> ui" where
  "shared_ui dir_only text =
     \<lparr>use_single_path_state = True, singlePathField = Some text, dir_only_checkbox = dir_only,
      slash_convert_checkbox = True, textField = (\<lambda>f. [])\<rparr>"

definition own_ui :: "bool \<Rightarrow> string \<Rightarrow> ui" where
  "own_ui dir_only text =
     \<lparr>use_single_path_state = False, singlePathField = None, dir_only_checkbox = dir_only,
      slash_convert_checkbox = True, textField = (\<lambda>f. text)\<rparr>"

definition after_first :: session where
  "after_first =
     fst (relink_references lib_fs copy_loader (shared_ui True ''/lib'') []
            (broken_scene ''/old/asset.ma{2}'') [] {})"

definition stale_scene :: host where
  "stale_scene = two_scene\<lparr>objExists := (\<lambda>r. r = ''ref2'')\<rparr>"

text \<open>
  What the reload of a reference decides, between a state \<open>st\<close> and the state \<open>st'\<close> that
  processing the reference leads to: if a reload was requested and returned without
  raising, the reference not being loaded afterwards gives a verification failure and
  nothing else, its being loaded gives a success; and \<open>success\<close> or \<open>relinked_refs\<close>
  change only after such a reload that left the reference loaded.
\<close>

abbreviation reload_decides :: "loader \<Rightarrow> string \<Rightarrow> session \<Rightarrow> session \<Rightarrow> bool" where
  "reload_decides file_load ref st st' \<equiv>
     (\<forall>p h'. reload_calls st' = reload_calls st @ [(p, ref)] \<and>
             file_load p ref (scene st) = (None, h') \<and> \<not> isLoaded h' ref \<longrightarrow>
        failed st' =
          failed st @ [ref @ '': Verification failed (Loaded: False, Path: '' @ quote @
                         filename h' ref @ quote @ '')''] \<and>
        relink_log st' =
          relink_log st @ [''Failed to relink '' @ ref @
                         '': Verification failed (Loaded: False, Path: '' @ quote @
                         filename h' ref @ quote @ '')''] \<and>
        success st' = success st \<and> relinked_refs st' = relinked_refs st \<and> scene st' = h') \<and>
     (\<forall>p h'. reload_calls st' = reload_calls st @ [(p, ref)] \<and>
             file_load p ref (scene st) = (None, h') \<and> isLoaded h' ref \<longrightarrow>
        success st' = success st @ [ref] \<and>
        relinked_refs st' = insert ref (relinked_refs st) \<and>
        failed st' = failed st \<and> scene st' = h') \<and>
     (success st' \<noteq> success st \<or> relinked_refs st' \<noteq> relinked_refs st \<longrightarrow>
        (\<exists>p h'. reload_calls st' = reload_calls st @ [(p, ref)] \<and>
                file_load p ref (scene st) = (None, h') \<and> isLoaded h' ref))"

section \<open>Facts about the pattern\<close>

lemma not_digit_brace [simp]: "\<not> is_digit (CHR ''}'')" "\<not> is_digit (CHR ''{'')" "\<not> is_digit newline"
  by (simp_all add: is_digit_def newline_def)

lemma suffix_here_iff:
  "suffix_here r \<longleftrightarrow>
     (\<exists>ds t. r = CHR ''{'' # ds @ CHR ''}'' # t \<and> ds \<noteq> [] \<and> (\<forall>c\<in>set ds. is_digit c) \<and>
             (t = [] \<or> t = [newline]))"
proof
  assume "suffix_here r"
  then obtain r' where r: "r = CHR ''{'' # r'" and ne: "takeWhile is_digit r' \<noteq> []"
    and t: "dropWhile is_digit r' = ''}'' \<or> dropWhile is_digit r' = [CHR ''}'', newline]"
    by (auto simp: suffix_here_def Let_def split: list.splits)
  have "r' = takeWhile is_digit r' @ dropWhile is_digit r'" by simp
  with t have "r' = takeWhile is_digit r' @ CHR ''}'' # [] \<or> r' = takeWhile is_digit r' @ CHR ''}'' # [newline]"
    by metis
  moreover have "\<forall>c\<in>set (takeWhile is_digit r'). is_digit c"
    by (auto dest: set_takeWhileD)
  ultimately show "\<exists>ds t. r = CHR ''{'' # ds @ CHR ''}'' # t \<and> ds \<noteq> [] \<and> (\<forall>c\<in>set ds. is_digit c) \<and>
             (t = [] \<or> t = [newline])"
    using r ne by blast
next
  assume "\<exists>ds t. r = CHR ''{'' # ds @ CHR ''}'' # t \<and> ds \<noteq> [] \<and> (\<forall>c\<in>set ds. is_digit c) \<and>
             (t = [] \<or> t = [newline])"
  then obtain ds t where r: "r = CHR ''{'' # ds @ CHR ''}'' # t" and ne: "ds \<noteq> []"
    and dg: "\<forall>c\<in>set ds. is_digit c" and t: "t = [] \<or> t = [newline]"
    by blast
  from dg have "takeWhile is_digit (ds @ CHR ''}'' # t) = ds"
    by (simp add: takeWhile_append2)
  moreover from dg have "dropWhile is_digit (ds @ CHR ''}'' # t) = CHR ''}'' # t"
    by (simp add: dropWhile_append2)
  ultimately show "suffix_here r"
    using r ne t by (auto simp: suffix_here_def Let_def)
qed

lemma group1_sound:
  "group1 acc s = Some b \<Longrightarrow>
     \<exists>x r. s = x @ r \<and> x \<noteq> [] \<and> newline \<notin> set x \<and> suffix_here r \<and> b = acc @ x"
proof (induction s arbitrary: acc)
  case Nil
  then show ?case by simp
next
  case (Cons c cs)
  from Cons.prems have c: "c \<noteq> newline" by (auto split: if_splits)
  show ?case
  proof (cases "group1 (acc @ [c]) cs")
    case None
    with Cons.prems c have "suffix_here cs" and "b = acc @ [c]"
      by (auto split: if_splits)
    with c show ?thesis by (intro exI[of _ "[c]"] exI[of _ cs]) simp
  next
    case (Some b')
    with Cons.prems c have "b' = b" by simp
    with Some Cons.IH obtain x r where "cs = x @ r" "x \<noteq> []" "newline \<notin> set x" "suffix_here r"
      "b = (acc @ [c]) @ x" by blast
    with c show ?thesis by (intro exI[of _ "c # x"] exI[of _ r]) simp
  qed
qed

lemma group1_complete:
  "x \<noteq> [] \<Longrightarrow> newline \<notin> set x \<Longrightarrow> suffix_here r \<Longrightarrow> \<exists>b. group1 acc (x @ r) = Some b"
proof (induction x arbitrary: acc)
  case Nil
  then show ?case by simp
next
  case (Cons c x)
  show ?case
  proof (cases "x = []")
    case True
    with Cons.prems show ?thesis by (auto split: option.splits)
  next
    case False
    with Cons.prems Cons.IH[of "acc @ [c]"] show ?thesis by auto
  qed
qed

text \<open>The position of the decoration is determined by the string.\<close>

lemma decoration_unique_aux:
  assumes "suffix_here (y @ r')" and "suffix_here r'"
  shows "y = []"
proof (rule ccontr)
  assume y: "y \<noteq> []"
  from assms(1) obtain ds t where 1: "y @ r' = CHR ''{'' # ds @ CHR ''}'' # t"
    and dg: "\<forall>c\<in>set ds. is_digit c" and t: "t = [] \<or> t = [newline]"
    unfolding suffix_here_iff by blast
  from assms(2) obtain r'' where 2: "r' = CHR ''{'' # r''" and "r'' \<noteq> []"
    unfolding suffix_here_iff by auto
  from y 1 obtain y' where y': "y = CHR ''{'' # y'" by (cases y) auto
  with 1 2 have eq: "y' @ CHR ''{'' # r'' = ds @ CHR ''}'' # t" by simp
  have "CHR ''{'' \<in> set (ds @ CHR ''}'' # t)"
    unfolding eq[symmetric] by simp
  with dg t show False by (auto simp: newline_def)
qed

lemma decoration_unique:
  assumes "x @ r = x' @ r'" and "suffix_here r" and "suffix_here r'"
  shows "x = x'"
proof -
  from assms(1) consider y where "x' = x @ y" "r = y @ r'" | y where "x = x' @ y" "r' = y @ r"
    by (auto simp: append_eq_append_conv2)
  then show ?thesis
  proof cases
    case 1
    with assms decoration_unique_aux[of y r'] show ?thesis by simp
  next
    case 2
    with assms decoration_unique_aux[of y r] show ?thesis by simp
  qed
qed

lemma copy_suffix_match_decorated:
  assumes "x \<noteq> []" and "newline \<notin> set x" and "suffix_here r"
  shows "copy_suffix_match (x @ r) = Some x"
proof -
  from group1_complete[OF assms] obtain b where b: "group1 [] (x @ r) = Some b" by blast
  from group1_sound[OF b] obtain x' r' where "x @ r = x' @ r'" "suffix_here r'" "b = x'"
    by auto
  with decoration_unique assms(3) have "b = x" by blast
  with b show ?thesis by (simp add: copy_suffix_match_def)
qed

lemma copy_suffix_match_Some:
  "copy_suffix_match s = Some b \<Longrightarrow> \<exists>r. s = b @ r \<and> b \<noteq> [] \<and> newline \<notin> set b \<and> suffix_here r"
  using group1_sound[of "[]" s b] by (auto simp: copy_suffix_match_def)

section \<open>Facts about one reference\<close>

lemma record_failure_fields [simp]:
  "scene (record_failure ref reason st) = scene st"
  "success (record_failure ref reason st) = success st"
  "failed (record_failure ref reason st) = failed st @ [ref @ '': '' @ reason]"
  "relink_log (record_failure ref reason st) =
     relink_log st @ [''Failed to relink '' @ ref @ '': '' @ reason]"
  "relinked_refs (record_failure ref reason st) = relinked_refs st"
  "printed (record_failure ref reason st) = printed st"
  "reload_calls (record_failure ref reason st) = reload_calls st"
  by (simp_all add: record_failure_def)

lemma skip_missing_fields [simp]:
  "scene (skip_missing ref st) = scene st"
  "success (skip_missing ref st) = success st"
  "failed (skip_missing ref st) = failed st"
  "relink_log (skip_missing ref st) = relink_log st"
  "relinked_refs (skip_missing ref st) = relinked_refs st"
  "reload_calls (skip_missing ref st) = reload_calls st"
  by (simp_all add: skip_missing_def)

lemma load_and_verify_missing:
  "\<not> path_exists fs new_path \<Longrightarrow>
     load_and_verify fs file_load ref new_path st =
       record_failure ref (''Target path does not exist: '' @ quote @ new_path @ quote) st"
  by (simp add: load_and_verify_def)

lemma load_and_verify_raised:
  "new_path \<noteq> [] \<Longrightarrow> path_exists fs new_path \<Longrightarrow>
   file_load new_path ref (scene st) = (Some e, h') \<Longrightarrow>
     load_and_verify fs file_load ref new_path st =
       record_failure ref (''Error: '' @ e)
         (st\<lparr>scene := h', reload_calls := reload_calls st @ [(new_path, ref)]\<rparr>)"
  by (simp add: load_and_verify_def)

lemma load_and_verify_unverified:
  "new_path \<noteq> [] \<Longrightarrow> path_exists fs new_path \<Longrightarrow>
   file_load new_path ref (scene st) = (None, h') \<Longrightarrow> \<not> isLoaded h' ref \<Longrightarrow>
     load_and_verify fs file_load ref new_path st =
       record_failure ref
         (''Verification failed (Loaded: False, Path: '' @ quote @ filename h' ref @ quote @ '')'')
         (st\<lparr>scene := h', reload_calls := reload_calls st @ [(new_path, ref)]\<rparr>)"
  by (simp add: load_and_verify_def)

lemma load_and_verify_loaded:
  "new_path \<noteq> [] \<Longrightarrow> path_exists fs new_path \<Longrightarrow>
   file_load new_path ref (scene st) = (None, h') \<Longrightarrow> isLoaded h' ref \<Longrightarrow>
     load_and_verify fs file_load ref new_path st =
       st\<lparr>scene := h', reload_calls := reload_calls st @ [(new_path, ref)],
          success := success st @ [ref],
          relink_log := relink_log st @
            [''Successfully relinked '' @ ref @ '' to '' @ filename h' ref],
          relinked_refs := insert ref (relinked_refs st)\<rparr>"
  by (simp add: load_and_verify_def)

section \<open>Facts about the batch\<close>

lemma load_and_verify_calls:
  "new_path \<noteq> [] \<Longrightarrow> path_exists fs new_path \<Longrightarrow>
     reload_calls (load_and_verify fs file_load ref new_path st) =
       reload_calls st @ [(new_path, ref)] \<and>
     scene (load_and_verify fs file_load ref new_path st) =
       snd (file_load new_path ref (scene st))"
  by (simp add: load_and_verify_def Let_def split: prod.splits option.splits)

lemma load_found_cases:
  "load_found fs file_load search_dir ref clean_file_name found st =
     record_failure ref
       (''Could not find '' @ quote @ clean_file_name @ quote @ '' in '' @ search_dir @
          '' (and subdirs)'') st \<or>
   (\<exists>found_path. found = Some found_path \<and> found_path \<noteq> [] \<and>
      load_found fs file_load search_dir ref clean_file_name found st =
        load_and_verify fs file_load ref found_path st)"
  by (auto simp: load_found_def Let_def split: option.splits)

text \<open>
  What a step can be: a skip, an exception that leaves the loop, a failure recorded before
  any reload, or the reload block on a path.
\<close>

lemma single_path_step_cases:
  "single_path_step fs file_load dir_only single_path ref st = (None, skip_missing ref st) \<or>
   (\<exists>e. single_path_step fs file_load dir_only single_path ref st = (Some e, st)) \<or>
   (\<exists>reason. single_path_step fs file_load dir_only single_path ref st =
      (None, record_failure ref reason st)) \<or>
   (\<exists>p. single_path_step fs file_load dir_only single_path ref st =
      (None, load_and_verify fs file_load ref p st))"
proof -
  consider "\<not> objExists (scene st) ref" | "objExists (scene st) ref" "\<not> dir_only"
    | "objExists (scene st) ref" "dir_only" by blast
  then show ?thesis
  proof cases
    case 1
    then show ?thesis by (simp add: single_path_step_def)
  next
    case 2
    then show ?thesis by (auto simp: single_path_step_def)
  next
    case 3
    show ?thesis
    proof (cases "search_clean_name fs single_path ref st")
      case (Inl e)
      with 3 show ?thesis by (simp add: single_path_step_def)
    next
      case (Inr cf)
      obtain c f where cf: "cf = (c, f)" by (cases cf)
      with 3 Inr have "single_path_step fs file_load dir_only single_path ref st =
          (None, load_found fs file_load single_path ref c f st)"
        by (simp add: single_path_step_def)
      with load_found_cases[of fs file_load single_path ref c f st] show ?thesis
        by metis
    qed
  qed
qed

lemma per_reference_step_cases:
  "per_reference_step fs file_load dir_only conv text_of (ref, field) st = skip_missing ref st \<or>
   per_reference_step fs file_load dir_only conv text_of (ref, field) st = st \<or>
   (\<exists>reason. per_reference_step fs file_load dir_only conv text_of (ref, field) st =
      record_failure ref reason st) \<or>
   (\<exists>p. per_reference_step fs file_load dir_only conv text_of (ref, field) st =
      load_and_verify fs file_load ref p st)"
proof -
  let ?input = "convert_slashes (py_strip (text_of field)) conv"
  consider "\<not> objExists (scene st) ref" | "objExists (scene st) ref" "py_strip (text_of field) = []"
    | "objExists (scene st) ref" "py_strip (text_of field) \<noteq> []" "\<not> dir_only"
    | "objExists (scene st) ref" "py_strip (text_of field) \<noteq> []" "dir_only" "\<not> isdir fs ?input"
    | "objExists (scene st) ref" "py_strip (text_of field) \<noteq> []" "dir_only" "isdir fs ?input"
    by blast
  then show ?thesis
  proof cases
    case 5
    show ?thesis
    proof (cases "search_clean_name fs ?input ref st")
      case (Inl e)
      with 5 show ?thesis by (auto simp: per_reference_step_def Let_def)
    next
      case (Inr cf)
      obtain c f where cf: "cf = (c, f)" by (cases cf)
      with 5 Inr have "per_reference_step fs file_load dir_only conv text_of (ref, field) st =
          load_found fs file_load ?input ref c f st"
        by (simp add: per_reference_step_def Let_def)
      with load_found_cases[of fs file_load ?input ref c f st] show ?thesis
        by metis
    qed
  qed (auto simp: per_reference_step_def Let_def)
qed

lemma find_in_walk_skip:
  "\<forall>t\<in>set before. file_name \<notin> set (snd (snd t)) \<Longrightarrow>
     find_in_walk (before @ rest) file_name = find_in_walk rest file_name"
  by (induction before) auto

lemma reload_decides_quiet:
  "reload_calls st' = reload_calls st \<Longrightarrow> success st' = success st \<Longrightarrow>
   relinked_refs st' = relinked_refs st \<Longrightarrow> reload_decides file_load ref st st'"
  by simp

lemma reload_decides_load_and_verify:
  "reload_decides file_load ref st (load_and_verify fs file_load ref new_path st)"
proof (cases "new_path \<noteq> [] \<and> path_exists fs new_path")
  case False
  then have "load_and_verify fs file_load ref new_path st =
      record_failure ref (''Target path does not exist: '' @ quote @ new_path @ quote) st"
    by (auto simp: load_and_verify_def)
  then show ?thesis by simp
next
  case True
  obtain raised h where fl: "file_load new_path ref (scene st) = (raised, h)"
    by (cases "file_load new_path ref (scene st)")
  show ?thesis
  proof (cases raised)
    case (Some e)
    with True fl have "load_and_verify fs file_load ref new_path st =
       record_failure ref (''Error: '' @ e)
         (st\<lparr>scene := h, reload_calls := reload_calls st @ [(new_path, ref)]\<rparr>)"
      by (intro load_and_verify_raised) simp_all
    with fl Some show ?thesis by auto
  next
    case None
    show ?thesis
    proof (cases "isLoaded h ref")
      case yes: True
      with True fl None have "load_and_verify fs file_load ref new_path st =
         st\<lparr>scene := h, reload_calls := reload_calls st @ [(new_path, ref)],
            success := success st @ [ref],
            relink_log := relink_log st @
              [''Successfully relinked '' @ ref @ '' to '' @ filename h ref],
            relinked_refs := insert ref (relinked_refs st)\<rparr>"
        by (intro load_and_verify_loaded) simp_all
      with fl None yes show ?thesis by auto
    next
      case no: False
      with True fl None have "load_and_verify fs file_load ref new_path st =
         record_failure ref
           (''Verification failed (Loaded: False, Path: '' @ quote @ filename h ref @ quote @ '')'')
           (st\<lparr>scene := h, reload_calls := reload_calls st @ [(new_path, ref)]\<rparr>)"
        by (intro load_and_verify_unverified) simp_all
      with fl None no show ?thesis by auto
    qed
  qed
qed

lemma reload_decides_single_path_step:
  "reload_decides file_load ref st
     (snd (single_path_step fs file_load dir_only single_path ref st))"
  using single_path_step_cases[of fs file_load dir_only single_path ref st]
proof (elim disjE exE)
  fix p
  assume "single_path_step fs file_load dir_only single_path ref st =
      (None, load_and_verify fs file_load ref p st)"
  then have eq: "snd (single_path_step fs file_load dir_only single_path ref st) =
      load_and_verify fs file_load ref p st" by simp
  show ?thesis unfolding eq by (rule reload_decides_load_and_verify)
qed simp_all

lemma reload_decides_per_reference_step:
  "reload_decides file_load ref st
     (per_reference_step fs file_load dir_only conv text_of (ref, field) st)"
  using per_reference_step_cases[of fs file_load dir_only conv text_of ref field st]
proof (elim disjE exE)
  fix p
  assume eq: "per_reference_step fs file_load dir_only conv text_of (ref, field) st =
      load_and_verify fs file_load ref p st"
  show ?thesis unfolding eq by (rule reload_decides_load_and_verify)
qed simp_all

lemma find_file_in_directory_met:
  "walk fs search_dir = (before @ (root, dirs, files) # rest, raised) \<Longrightarrow>
   \<forall>t\<in>set before. file_name \<notin> set (snd (snd t)) \<Longrightarrow> file_name \<in> set files \<Longrightarrow>
     find_file_in_directory fs search_dir file_name = Inr (Some (path_join root file_name))"
  by (simp add: find_file_in_directory_def find_in_walk_skip)

lemma single_path_step_exact:
  "objExists (scene st) ref \<Longrightarrow> \<not> dir_only \<Longrightarrow>
     single_path_step fs file_load dir_only single_path ref st =
       (None, load_and_verify fs file_load ref single_path st)"
  by (simp add: single_path_step_def)

lemma single_path_step_found:
  "objExists (scene st) ref \<Longrightarrow> dir_only \<Longrightarrow>
   search_clean_name fs single_path ref st = Inr (clean_file_name, Some found_path) \<Longrightarrow>
   found_path \<noteq> [] \<Longrightarrow>
     single_path_step fs file_load dir_only single_path ref st =
       (None, load_and_verify fs file_load ref found_path st)"
  by (simp add: single_path_step_def load_found_def)

lemma per_reference_step_exact:
  "objExists (scene st) ref \<Longrightarrow> py_strip (text_of field) \<noteq> [] \<Longrightarrow> \<not> dir_only \<Longrightarrow>
     per_reference_step fs file_load dir_only conv text_of (ref, field) st =
       load_and_verify fs file_load ref (convert_slashes (py_strip (text_of field)) conv) st"
  by (simp add: per_reference_step_def Let_def)

lemma per_reference_step_found:
  "objExists (scene st) ref \<Longrightarrow> py_strip (text_of field) \<noteq> [] \<Longrightarrow> dir_only \<Longrightarrow>
   isdir fs (convert_slashes (py_strip (text_of field)) conv) \<Longrightarrow>
   search_clean_name fs (convert_slashes (py_strip (text_of field)) conv) ref st =
     Inr (clean_file_name, Some found_path) \<Longrightarrow>
   found_path \<noteq> [] \<Longrightarrow>
     per_reference_step fs file_load dir_only conv text_of (ref, field) st =
       load_and_verify fs file_load ref found_path st"
  by (simp add: per_reference_step_def Let_def load_found_def)

lemma reload_calls_load_and_verify:
  "set (reload_calls (load_and_verify fs file_load ref new_path st)) \<subseteq>
     set (reload_calls st) \<union> {c. path_exists fs (fst c)}"
  by (auto simp: load_and_verify_def Let_def split: prod.splits option.splits)

lemma reload_calls_single_path_step:
  "set (reload_calls (snd (single_path_step fs file_load dir_only single_path ref st))) \<subseteq>
     set (reload_calls st) \<union> {c. path_exists fs (fst c)}"
  using single_path_step_cases[of fs file_load dir_only single_path ref st]
    reload_calls_load_and_verify[of fs file_load ref _ st]
  by (elim disjE exE) auto

lemma reload_calls_per_reference_step:
  "set (reload_calls (per_reference_step fs file_load dir_only conv text_of item st)) \<subseteq>
     set (reload_calls st) \<union> {c. path_exists fs (fst c)}"
proof (cases item)
  case (Pair ref field)
  then show ?thesis
    using per_reference_step_cases[of fs file_load dir_only conv text_of ref field st]
      reload_calls_load_and_verify[of fs file_load ref _ st]
    by (elim disjE exE) auto
qed

lemma reload_calls_single_path_loop:
  "set (reload_calls (snd (single_path_loop fs file_load dir_only single_path refs st))) \<subseteq>
     set (reload_calls st) \<union> {c. path_exists fs (fst c)}"
proof (induction refs arbitrary: st)
  case Nil
  then show ?case by simp
next
  case (Cons ref refs)
  obtain r st' where step: "single_path_step fs file_load dir_only single_path ref st = (r, st')"
    by (cases "single_path_step fs file_load dir_only single_path ref st")
  with reload_calls_single_path_step[of fs file_load dir_only single_path ref st]
  have 1: "set (reload_calls st') \<subseteq> set (reload_calls st) \<union> {c. path_exists fs (fst c)}"
    by simp
  show ?case
  proof (cases r)
    case None
    with step Cons.IH[of st'] 1 show ?thesis by auto
  next
    case (Some e)
    with step 1 show ?thesis by simp
  qed
qed

lemma reload_calls_fold:
  "set (reload_calls (fold (per_reference_step fs file_load dir_only conv text_of) items st)) \<subseteq>
     set (reload_calls st) \<union> {c. path_exists fs (fst c)}"
proof (induction items arbitrary: st)
  case Nil
  then show ?case by simp
next
  case (Cons item items)
  from Cons.IH[of "per_reference_step fs file_load dir_only conv text_of item st"]
    reload_calls_per_reference_step[of fs file_load dir_only conv text_of item st]
  show ?case by auto
qed

lemma reload_calls_run_batch:
  "set (reload_calls (snd (run_batch fs file_load u mapping_dict st))) \<subseteq>
     set (reload_calls st) \<union> {c. path_exists fs (fst c)}"
proof (cases "use_single_path_state u")
  case True
  show ?thesis
  proof (cases "singlePathField u")
    case None
    with True show ?thesis by (simp add: run_batch_def)
  next
    case (Some field_text)
    show ?thesis
      using True Some
        reload_calls_single_path_loop[of fs file_load "dir_only_checkbox u"
          "convert_slashes (py_strip field_text) (slash_convert_checkbox u)"
          "broken_refs fs (scene st)" st]
      by (simp add: run_batch_def Let_def)
  qed
next
  case False
  then show ?thesis
    using reload_calls_fold[of fs file_load "dir_only_checkbox u" "slash_convert_checkbox u"
        "textField u" mapping_dict st]
    by (simp add: run_batch_def Let_def)
qed

lemma py_strip_blank: "py_strip t = [] \<longleftrightarrow> (\<forall>c\<in>set t. is_space c)"
proof
  assume "py_strip t = []"
  then have *: "\<forall>c\<in>set (dropWhile is_space t). is_space c"
    by (simp add: py_strip_def dropWhile_eq_Nil_conv)
  have "dropWhile is_space t = []"
  proof (rule ccontr)
    assume ne: "dropWhile is_space t \<noteq> []"
    then have "\<not> is_space (hd (dropWhile is_space t))" by (rule hd_dropWhile)
    moreover from ne have "hd (dropWhile is_space t) \<in> set (dropWhile is_space t)" by simp
    ultimately show False using * by blast
  qed
  then show "\<forall>c\<in>set t. is_space c" by (simp add: dropWhile_eq_Nil_conv)
next
  assume "\<forall>c\<in>set t. is_space c"
  then have "dropWhile is_space t = []" by (simp add: dropWhile_eq_Nil_conv)
  then have "rev (dropWhile is_space (rev (dropWhile is_space t))) = []"
    by (simp only: rev.simps dropWhile.simps)
  then show "py_strip t = []" by (simp only: py_strip_def)
qed

lemma py_strip_lib: "py_strip ''/lib'' = ''/lib''"
  by (simp add: py_strip_def is_space_def)

lemma py_strip_nul_path: "py_strip nul_path = nul_path"
  by (simp add: py_strip_def is_space_def nul_path_def)

lemma clean_asset: "clean_name ''asset.ma{2}'' = ''asset.ma''"
  by (simp add: clean_name_def copy_suffix_match_def suffix_here_def is_digit_def newline_def)

lemma clean_plain: "clean_name ''asset.ma'' = ''asset.ma''"
  by (simp add: clean_name_def copy_suffix_match_def suffix_here_def)

lemma convert_lib: "convert_slashes ''/lib'' True = ''/lib''"
  by (simp add: convert_slashes_def backslash_def)

lemma convert_nul_path: "convert_slashes nul_path True = nul_path"
  by (simp add: convert_slashes_def backslash_def nul_path_def)

lemma start_fields [simp]:
  "scene (start h log rs) = h"
  "success (start h log rs) = []"
  "failed (start h log rs) = []"
  "relink_log (start h log rs) = log"
  "relinked_refs (start h log rs) = rs"
  "printed (start h log rs) = []"
  "reload_calls (start h log rs) = []"
  by (simp_all add: start_def)

lemma run_batch_shared:
  "py_strip t = t \<Longrightarrow> t \<noteq> [] \<Longrightarrow> convert_slashes t True = t \<Longrightarrow>
     run_batch fs file_load (shared_ui dir_only t) mapping_dict st =
       single_path_loop fs file_load dir_only t (broken_refs fs (scene st)) st"
  by (simp add: run_batch_def shared_ui_def Let_def)

lemma run_batch_own:
  "run_batch fs file_load (own_ui dir_only t) mapping_dict st =
     (None, fold (per_reference_step fs file_load dir_only True (\<lambda>f. t)) mapping_dict st)"
  by (simp add: run_batch_def own_ui_def Let_def)

lemma relink_references_fst:
  "fst (relink_references fs file_load u mapping_dict h log rs) =
     snd (run_batch fs file_load u mapping_dict (start h log rs))"
  by (simp add: relink_references_def split: prod.splits option.splits)

lemma lib_search:
  "unresolvedName (scene st) ref = Inr p \<Longrightarrow> clean_name (basename p) = ''asset.ma'' \<Longrightarrow>
     search_clean_name lib_fs ''/lib'' ref st = Inr (''asset.ma'', Some ''/lib/sub/asset.ma'')"
  by (simp add: search_clean_name_def Let_def find_file_in_directory_def lib_fs_def path_join_def)

lemma single_path_step_raise:
  "objExists (scene st) ref \<Longrightarrow> dir_only \<Longrightarrow> search_clean_name fs single_path ref st = Inl e \<Longrightarrow>
     single_path_step fs file_load dir_only single_path ref st = (Some e, st)"
  by (simp add: single_path_step_def)

lemma per_reference_step_raise:
  "objExists (scene st) ref \<Longrightarrow> py_strip (text_of field) \<noteq> [] \<Longrightarrow> dir_only \<Longrightarrow>
   isdir fs (convert_slashes (py_strip (text_of field)) conv) \<Longrightarrow>
   search_clean_name fs (convert_slashes (py_strip (text_of field)) conv) ref st = Inl e \<Longrightarrow>
     per_reference_step fs file_load dir_only conv text_of (ref, field) st =
       record_failure ref (''Error processing path: '' @ e) st"
  by (simp add: per_reference_step_def Let_def)

section \<open>The claims\<close>

subsection \<open>Stripping the copy suffix\<close>

text \<open>
  C1, as amended. For every file name \<open>F\<close> without a line feed: if \<open>F\<close> is a non-empty base
  immediately followed by a brace-enclosed non-empty run of decimal digits, the
  suffix-stripping step returns the base; if \<open>F\<close> is not of that form, it returns \<open>F\<close>
  unchanged. A name that is entirely the decoration, with an empty base, is not of that
  form (\<open>.+\<close> needs one character) and is returned unchanged.
\<close>

theorem clean_name_decorated:
  "newline \<notin> set F \<Longrightarrow>
     (\<forall>base ds. F = base @ ''{'' @ ds @ ''}'' \<and> base \<noteq> [] \<and> ds \<noteq> [] \<and> (\<forall>c\<in>set ds. is_digit c)
        \<longrightarrow> clean_name F = base) \<and>
     ((\<nexists>base ds. F = base @ ''{'' @ ds @ ''}'' \<and> base \<noteq> [] \<and> ds \<noteq> [] \<and> (\<forall>c\<in>set ds. is_digit c))
        \<longrightarrow> clean_name F = F)"
proof (intro conjI allI impI)
  fix base ds
  assume nl: "newline \<notin> set F"
    and F: "F = base @ ''{'' @ ds @ ''}'' \<and> base \<noteq> [] \<and> ds \<noteq> [] \<and> (\<forall>c\<in>set ds. is_digit c)"
  then have "suffix_here (''{'' @ ds @ ''}'')"
    unfolding suffix_here_iff by auto
  moreover from nl F have "newline \<notin> set base" by auto
  ultimately have "copy_suffix_match (base @ ''{'' @ ds @ ''}'') = Some base"
    using F copy_suffix_match_decorated by blast
  with F show "clean_name F = base" by (simp add: clean_name_def)
next
  assume nl: "newline \<notin> set F"
    and no: "\<nexists>base ds. F = base @ ''{'' @ ds @ ''}'' \<and> base \<noteq> [] \<and> ds \<noteq> [] \<and> (\<forall>c\<in>set ds. is_digit c)"
  have "copy_suffix_match F = None"
  proof (cases "copy_suffix_match F")
    case None
    then show ?thesis .
  next
    case (Some b)
    from copy_suffix_match_Some[OF Some] obtain r where r: "F = b @ r" "b \<noteq> []" "suffix_here r"
      by blast
    from r(3) obtain ds t where d: "r = CHR ''{'' # ds @ CHR ''}'' # t" "ds \<noteq> []"
      "\<forall>c\<in>set ds. is_digit c" "t = [] \<or> t = [newline]"
      unfolding suffix_here_iff by blast
    from nl r(1) d(1) d(4) have "t = []" by auto
    with r d have "F = b @ ''{'' @ ds @ ''}'' \<and> b \<noteq> [] \<and> ds \<noteq> [] \<and> (\<forall>c\<in>set ds. is_digit c)"
      by simp
    with no show ?thesis by blast
  qed
  then show "clean_name F = F" by (simp add: clean_name_def)
qed

theorem clean_name_decorated_witness:
  "newline \<notin> set ''asset.ma{2}'' \<and> clean_name ''asset.ma{2}'' = ''asset.ma'' \<and>
   newline \<notin> set ''asset{2}.ma'' \<and> clean_name ''asset{2}.ma'' = ''asset{2}.ma''"
proof -
  have n1: "newline \<notin> set ''asset.ma{2}''" and n2: "newline \<notin> set ''asset{2}.ma''"
    by (simp_all add: newline_def)
  have "''asset.ma{2}'' = ''asset.ma'' @ ''{'' @ ''2'' @ ''}'' \<and> ''asset.ma'' \<noteq> [] \<and> ''2'' \<noteq> [] \<and>
        (\<forall>c\<in>set ''2''. is_digit c)"
    by (simp add: is_digit_def)
  with clean_name_decorated[OF n1] have 1: "clean_name ''asset.ma{2}'' = ''asset.ma''"
    by blast
  have "\<nexists>base ds. ''asset{2}.ma'' = base @ ''{'' @ ds @ ''}'' \<and> base \<noteq> [] \<and> ds \<noteq> [] \<and>
          (\<forall>c\<in>set ds. is_digit c)"
  proof
    assume "\<exists>base ds. ''asset{2}.ma'' = base @ ''{'' @ ds @ ''}'' \<and> base \<noteq> [] \<and> ds \<noteq> [] \<and>
          (\<forall>c\<in>set ds. is_digit c)"
    then obtain base ds where "''asset{2}.ma'' = (base @ ''{'' @ ds) @ ''}''" by auto
    then have "last ''asset{2}.ma'' = last ((base @ ''{'' @ ds) @ ''}'')" by (rule arg_cong)
    then show False by simp
  qed
  with clean_name_decorated[OF n2] have 2: "clean_name ''asset{2}.ma'' = ''asset{2}.ma''"
    by blast
  from n1 n2 1 2 show ?thesis by blast
qed

text \<open>
  The claim as stated has the decoration alone strip to the empty base; the pattern does
  not match it, and it comes back whole.
\<close>

theorem empty_base_counterexample:
  "clean_name ([] @ ''{'' @ ''3'' @ ''}'') = ''{3}'' \<and> clean_name ([] @ ''{'' @ ''3'' @ ''}'') \<noteq> []"
  by (simp add: clean_name_def copy_suffix_match_def suffix_here_def)

subsection \<open>Scenario A\<close>

text \<open>
  C2, as amended. In single-shared-path, directory-only mode, for a live reference whose
  unresolved path has the basename \<open>asset.ma{2}\<close> (the copy number after the extension)
  and a shared directory \<open>/lib\<close> whose walk first meets \<open>asset.ma\<close> in \<open>/lib/sub\<close>:
  the clean name is \<open>asset.ma\<close>, the search yields \<open>/lib/sub/asset.ma\<close>, and the host
  reload is called with that path, whatever the host then does. When the reload returns
  without error and the reference then reports loaded, the outcome is a success.
\<close>

theorem scenario_A_copy_number_last:
  assumes "objExists (scene st) ref"
    and "unresolvedName (scene st) ref = Inr original_path"
    and "basename original_path = ''asset.ma{2}''"
    and "walk fs ''/lib'' = (before @ (''/lib/sub'', dirs, files) # rest, raised)"
    and "\<forall>t\<in>set before. ''asset.ma'' \<notin> set (snd (snd t))"
    and "''asset.ma'' \<in> set files"
    and "path_exists fs ''/lib/sub/asset.ma''"
  shows "clean_name (basename original_path) = ''asset.ma'' \<and>
         find_file_in_directory fs ''/lib'' ''asset.ma'' = Inr (Some ''/lib/sub/asset.ma'') \<and>
         fst (single_path_step fs file_load True ''/lib'' ref st) = None \<and>
         reload_calls (snd (single_path_step fs file_load True ''/lib'' ref st)) =
           reload_calls st @ [(''/lib/sub/asset.ma'', ref)] \<and>
         scene (snd (single_path_step fs file_load True ''/lib'' ref st)) =
           snd (file_load ''/lib/sub/asset.ma'' ref (scene st)) \<and>
         (file_load ''/lib/sub/asset.ma'' ref (scene st) = (None, h') \<and> isLoaded h' ref \<longrightarrow>
            success (snd (single_path_step fs file_load True ''/lib'' ref st)) =
              success st @ [ref] \<and>
            failed (snd (single_path_step fs file_load True ''/lib'' ref st)) = failed st \<and>
            relinked_refs (snd (single_path_step fs file_load True ''/lib'' ref st)) =
              insert ref (relinked_refs st))"
proof -
  have cn: "clean_name (basename original_path) = ''asset.ma''"
    using assms(3) clean_asset by simp
  have found: "find_file_in_directory fs ''/lib'' ''asset.ma'' = Inr (Some ''/lib/sub/asset.ma'')"
    using find_file_in_directory_met[OF assms(4,5,6)] by (simp add: path_join_def)
  have "search_clean_name fs ''/lib'' ref st = Inr (''asset.ma'', Some ''/lib/sub/asset.ma'')"
    using assms(2) cn found by (simp add: search_clean_name_def Let_def)
  with assms(1) have step: "single_path_step fs file_load True ''/lib'' ref st =
      (None, load_and_verify fs file_load ref ''/lib/sub/asset.ma'' st)"
    by (intro single_path_step_found) simp_all
  have calls: "reload_calls (load_and_verify fs file_load ref ''/lib/sub/asset.ma'' st) =
       reload_calls st @ [(''/lib/sub/asset.ma'', ref)] \<and>
     scene (load_and_verify fs file_load ref ''/lib/sub/asset.ma'' st) =
       snd (file_load ''/lib/sub/asset.ma'' ref (scene st))"
    using assms(7) by (intro load_and_verify_calls) simp_all
  have ok: "success (load_and_verify fs file_load ref ''/lib/sub/asset.ma'' st) = success st @ [ref] \<and>
      failed (load_and_verify fs file_load ref ''/lib/sub/asset.ma'' st) = failed st \<and>
      relinked_refs (load_and_verify fs file_load ref ''/lib/sub/asset.ma'' st) =
        insert ref (relinked_refs st)"
    if "file_load ''/lib/sub/asset.ma'' ref (scene st) = (None, h') \<and> isLoaded h' ref"
  proof -
    from that assms(7) have "load_and_verify fs file_load ref ''/lib/sub/asset.ma'' st =
        st\<lparr>scene := h', reload_calls := reload_calls st @ [(''/lib/sub/asset.ma'', ref)],
           success := success st @ [ref],
           relink_log := relink_log st @
             [''Successfully relinked '' @ ref @ '' to '' @ filename h' ref],
           relinked_refs := insert ref (relinked_refs st)\<rparr>"
      by (intro load_and_verify_loaded) simp_all
    then show ?thesis by simp
  qed
  from cn found calls ok show ?thesis unfolding step by simp
qed

theorem scenario_A_copy_number_last_witness:
  "objExists (scene (start (broken_scene ''/old/asset.ma{2}'') [] {})) ''ref1'' \<and>
   unresolvedName (scene (start (broken_scene ''/old/asset.ma{2}'') [] {})) ''ref1'' =
     Inr ''/old/asset.ma{2}'' \<and>
   basename ''/old/asset.ma{2}'' = ''asset.ma{2}'' \<and>
   path_exists lib_fs ''/lib/sub/asset.ma'' \<and>
   isLoaded (snd (copy_loader ''/lib/sub/asset.ma'' ''ref1''
                    (scene (start (broken_scene ''/old/asset.ma{2}'') [] {})))) ''ref1'' \<and>
   success (snd (single_path_step lib_fs copy_loader True ''/lib'' ''ref1''
              (start (broken_scene ''/old/asset.ma{2}'') [] {}))) = [''ref1''] \<and>
   reload_calls (snd (single_path_step lib_fs copy_loader True ''/lib'' ''ref1''
              (start (broken_scene ''/old/asset.ma{2}'') [] {}))) = [(''/lib/sub/asset.ma'', ''ref1'')] \<and>
   reload_calls (snd (single_path_step lib_fs idle_loader True ''/lib'' ''ref1''
              (start (broken_scene ''/old/asset.ma{2}'') [] {}))) = [(''/lib/sub/asset.ma'', ''ref1'')]"
proof -
  let ?st = "start (broken_scene ''/old/asset.ma{2}'') [] {}"
  let ?h' = "snd (copy_loader ''/lib/sub/asset.ma'' ''ref1'' (scene ?st))"
  have 1: "objExists (scene ?st) ''ref1''"
    by (simp add: start_def broken_scene_def)
  have 2: "unresolvedName (scene ?st) ''ref1'' = Inr ''/old/asset.ma{2}''"
    by (simp add: start_def broken_scene_def)
  have 3: "basename ''/old/asset.ma{2}'' = ''asset.ma{2}''"
    by (simp add: basename_def)
  have 4: "walk lib_fs ''/lib'' =
      ([(''/lib'', [''sub''], [])] @ (''/lib/sub'', [], [''asset.ma'']) # [], None)"
    by (simp add: lib_fs_def)
  have 5: "\<forall>t\<in>set [(''/lib'', [''sub''], [])]. ''asset.ma'' \<notin> set (snd (snd t))"
    by simp
  have 6: "''asset.ma'' \<in> set [''asset.ma'']"
    by simp
  have 7: "path_exists lib_fs ''/lib/sub/asset.ma''"
    by (simp add: lib_fs_def)
  have 8: "copy_loader ''/lib/sub/asset.ma'' ''ref1'' (scene ?st) = (None, ?h')"
    by (simp add: copy_loader_def)
  have 9: "isLoaded ?h' ''ref1''"
    by (simp add: copy_loader_def)
  from scenario_A_copy_number_last[where st = ?st and ref = "''ref1''" and fs = lib_fs
      and file_load = copy_loader and original_path = "''/old/asset.ma{2}''"
      and before = "[(''/lib'', [''sub''], [])]" and dirs = "[]"
      and files = "[''asset.ma'']" and rest = "[]" and raised = None and h' = ?h',
      OF 1 2 3 4 5 6 7] 8 9
  have a: "success (snd (single_path_step lib_fs copy_loader True ''/lib'' ''ref1'' ?st)) =
        success ?st @ [''ref1''] \<and>
      reload_calls (snd (single_path_step lib_fs copy_loader True ''/lib'' ''ref1'' ?st)) =
        reload_calls ?st @ [(''/lib/sub/asset.ma'', ''ref1'')]"
    by blast
  from scenario_A_copy_number_last[where st = ?st and ref = "''ref1''" and fs = lib_fs
      and file_load = idle_loader and original_path = "''/old/asset.ma{2}''"
      and before = "[(''/lib'', [''sub''], [])]" and dirs = "[]"
      and files = "[''asset.ma'']" and rest = "[]" and raised = None and h' = ?h',
      OF 1 2 3 4 5 6 7]
  have b: "reload_calls (snd (single_path_step lib_fs idle_loader True ''/lib'' ''ref1'' ?st)) =
        reload_calls ?st @ [(''/lib/sub/asset.ma'', ''ref1'')]"
    by blast
  from a b 1 2 3 7 9 show ?thesis by (simp add: start_def)
qed

text \<open>
  With the basename \<open>asset{2}.ma\<close> of the claim the pattern does not match, since the
  decoration is not at the end: the name searched for is \<open>asset{2}.ma\<close>, nothing is found
  in \<open>/lib\<close>, no reload is requested and the outcome is a failure.
\<close>

theorem scenario_A_counterexample:
  "clean_name (basename ''/old/asset{2}.ma'') = ''asset{2}.ma'' \<and>
   success (fst (relink_references lib_fs copy_loader (shared_ui True ''/lib'') []
                   (broken_scene ''/old/asset{2}.ma'') [] {})) = [] \<and>
   failed (fst (relink_references lib_fs copy_loader (shared_ui True ''/lib'') []
                   (broken_scene ''/old/asset{2}.ma'') [] {})) =
     [''ref1: Could not find '' @ quote @ ''asset{2}.ma'' @ quote @ '' in /lib (and subdirs)''] \<and>
   reload_calls (fst (relink_references lib_fs copy_loader (shared_ui True ''/lib'') []
                   (broken_scene ''/old/asset{2}.ma'') [] {})) = []"
proof -
  let ?st = "start (broken_scene ''/old/asset{2}.ma'') [] {}"
  have cn: "clean_name (basename ''/old/asset{2}.ma'') = ''asset{2}.ma''"
    by (simp add: basename_def clean_name_def copy_suffix_match_def suffix_here_def
        is_digit_def newline_def)
  have br: "broken_refs lib_fs (broken_scene ''/old/asset{2}.ma'') = [''ref1'']"
    by (simp add: broken_refs_def broken_scene_def lib_fs_def)
  have step: "single_path_step lib_fs copy_loader True ''/lib'' ''ref1'' ?st =
      (None, record_failure ''ref1''
         (''Could not find '' @ quote @ ''asset{2}.ma'' @ quote @ '' in /lib (and subdirs)'') ?st)"
    using cn
    by (simp add: single_path_step_def search_clean_name_def load_found_def
        broken_scene_def Let_def find_file_in_directory_def lib_fs_def)
  have "run_batch lib_fs copy_loader (shared_ui True ''/lib'') [] ?st =
        single_path_loop lib_fs copy_loader True ''/lib'' [''ref1''] ?st"
    using br py_strip_lib convert_lib by (simp add: run_batch_shared)
  also have "\<dots> = (None, record_failure ''ref1''
         (''Could not find '' @ quote @ ''asset{2}.ma'' @ quote @ '' in /lib (and subdirs)'') ?st)"
    by (simp add: step)
  finally have "fst (relink_references lib_fs copy_loader (shared_ui True ''/lib'') []
                   (broken_scene ''/old/asset{2}.ma'') [] {}) =
      record_failure ''ref1''
         (''Could not find '' @ quote @ ''asset{2}.ma'' @ quote @ '' in /lib (and subdirs)'') ?st"
    by (simp add: relink_references_fst)
  then show ?thesis using cn by (simp add: start_def)
qed

subsection \<open>Running the batch again\<close>

text \<open>
  C3. The claim is that a second batch over a reference that the first one relinked, and
  that is now loaded, has no outcome, the enumeration leaving loaded references out. The
  enumeration of line 182 tests instead whether the reported file name exists on disk. A
  reference relinked by a first batch is loaded, and the host reports its file name with
  the copy number, \<open>/lib/sub/asset.ma{2}\<close>, which is not a path on disk: the mapping of
  the refreshed window, which filters on the loaded state, leaves it out, but line 182
  lists it again, and the second batch reloads it and records a second success.
\<close>

theorem loaded_reference_enumerated_again:
  "success after_first = [''ref1''] \<and>
   isLoaded (scene after_first) ''ref1'' \<and>
   filename (scene after_first) ''ref1'' = ''/lib/sub/asset.ma{2}'' \<and>
   mapping_refs False False (scene after_first) = [] \<and>
   broken_refs lib_fs (scene after_first) = [''ref1''] \<and>
   success (fst (relink_references lib_fs copy_loader (shared_ui True ''/lib'') []
                   (scene after_first) (relink_log after_first) (relinked_refs after_first))) =
     [''ref1''] \<and>
   reload_calls (fst (relink_references lib_fs copy_loader (shared_ui True ''/lib'') []
                   (scene after_first) (relink_log after_first) (relinked_refs after_first))) =
     [(''/lib/sub/asset.ma'', ''ref1'')] \<and>
   relink_log (fst (relink_references lib_fs copy_loader (shared_ui True ''/lib'') []
                   (scene after_first) (relink_log after_first) (relinked_refs after_first))) =
     [''Successfully relinked ref1 to /lib/sub/asset.ma{2}'',
      ''Successfully relinked ref1 to /lib/sub/asset.ma{2}'']"
proof -
  let ?st0 = "start (broken_scene ''/old/asset.ma{2}'') [] {}"
  have br0: "broken_refs lib_fs (broken_scene ''/old/asset.ma{2}'') = [''ref1'']"
    by (simp add: broken_refs_def broken_scene_def lib_fs_def)
  have cn0: "clean_name (basename ''/old/asset.ma{2}'') = ''asset.ma''"
    using clean_asset by (simp add: basename_def)
  have s0: "search_clean_name lib_fs ''/lib'' ''ref1'' ?st0 =
      Inr (''asset.ma'', Some ''/lib/sub/asset.ma'')"
    using cn0 by (intro lib_search) (simp_all add: broken_scene_def)
  have step0: "single_path_step lib_fs copy_loader True ''/lib'' ''ref1'' ?st0 =
      (None, load_and_verify lib_fs copy_loader ''ref1'' ''/lib/sub/asset.ma'' ?st0)"
    using s0 by (intro single_path_step_found) (simp_all add: broken_scene_def)
  have "run_batch lib_fs copy_loader (shared_ui True ''/lib'') [] ?st0 =
      single_path_loop lib_fs copy_loader True ''/lib'' [''ref1''] ?st0"
    using br0 py_strip_lib convert_lib by (simp add: run_batch_shared)
  also have "\<dots> = (None, load_and_verify lib_fs copy_loader ''ref1'' ''/lib/sub/asset.ma'' ?st0)"
    by (simp add: step0)
  finally have af: "after_first =
      load_and_verify lib_fs copy_loader ''ref1'' ''/lib/sub/asset.ma'' ?st0"
    by (simp add: after_first_def relink_references_fst)
  have sc: "scene after_first =
      \<lparr>ls_reference = [''ref1''], objExists = (\<lambda>r. r = ''ref1''),
       isLoaded = (\<lambda>r. False)(''ref1'' := True),
       filename = (\<lambda>r. ''/old/asset.ma{2}'')(''ref1'' := ''/lib/sub/asset.ma{2}''),
       unresolvedName = (\<lambda>r. Inr ''/old/asset.ma{2}'')(''ref1'' := Inr ''/lib/sub/asset.ma{2}'')\<rparr>"
    and s1: "success after_first = [''ref1'']"
    and l1: "relink_log after_first = [''Successfully relinked ref1 to /lib/sub/asset.ma{2}'']"
    unfolding af
    by (simp_all add: load_and_verify_def broken_scene_def lib_fs_def copy_loader_def)
  let ?st1 = "start (scene after_first) (relink_log after_first) (relinked_refs after_first)"
  have br: "broken_refs lib_fs (scene after_first) = [''ref1'']"
    unfolding sc by (simp add: broken_refs_def lib_fs_def)
  have mr: "mapping_refs False False (scene after_first) = []"
    unfolding sc by (simp add: mapping_refs_def refs_to_display_def all_refs_def)
  have cn1: "clean_name (basename ''/lib/sub/asset.ma{2}'') = ''asset.ma''"
    using clean_asset by (simp add: basename_def)
  have s1': "search_clean_name lib_fs ''/lib'' ''ref1'' ?st1 =
      Inr (''asset.ma'', Some ''/lib/sub/asset.ma'')"
    using cn1 by (intro lib_search) (simp_all add: sc)
  have step1: "single_path_step lib_fs copy_loader True ''/lib'' ''ref1'' ?st1 =
      (None, load_and_verify lib_fs copy_loader ''ref1'' ''/lib/sub/asset.ma'' ?st1)"
    using s1' by (intro single_path_step_found) (simp_all add: sc)
  have "run_batch lib_fs copy_loader (shared_ui True ''/lib'') [] ?st1 =
      single_path_loop lib_fs copy_loader True ''/lib'' [''ref1''] ?st1"
    using br py_strip_lib convert_lib by (simp add: run_batch_shared)
  also have "\<dots> = (None, load_and_verify lib_fs copy_loader ''ref1'' ''/lib/sub/asset.ma'' ?st1)"
    by (simp add: step1)
  finally have "fst (relink_references lib_fs copy_loader (shared_ui True ''/lib'') []
                   (scene after_first) (relink_log after_first) (relinked_refs after_first)) =
      load_and_verify lib_fs copy_loader ''ref1'' ''/lib/sub/asset.ma'' ?st1"
    by (simp add: relink_references_fst)
  then have second:
    "success (fst (relink_references lib_fs copy_loader (shared_ui True ''/lib'') []
                   (scene after_first) (relink_log after_first) (relinked_refs after_first))) =
       [''ref1'']"
    "reload_calls (fst (relink_references lib_fs copy_loader (shared_ui True ''/lib'') []
                   (scene after_first) (relink_log after_first) (relinked_refs after_first))) =
       [(''/lib/sub/asset.ma'', ''ref1'')]"
    "relink_log (fst (relink_references lib_fs copy_loader (shared_ui True ''/lib'') []
                   (scene after_first) (relink_log after_first) (relinked_refs after_first))) =
       [''Successfully relinked ref1 to /lib/sub/asset.ma{2}'',
        ''Successfully relinked ref1 to /lib/sub/asset.ma{2}'']"
    using l1 by (simp_all add: load_and_verify_def lib_fs_def copy_loader_def sc)
  have 1: "isLoaded (scene after_first) ''ref1''"
    and 2: "filename (scene after_first) ''ref1'' = ''/lib/sub/asset.ma{2}''"
    unfolding sc by simp_all
  from s1 1 2 mr br second show ?thesis by blast
qed

subsection \<open>Verification after the reload\<close>

text \<open>
  C4. For the reload block and for the step of each loop: when the reload that was
  requested returns without raising and the reference is then reported as not loaded, a
  verification failure is recorded in \<open>failed\<close> and in the log, \<open>success\<close> is unchanged
  and the reference is not added to \<open>relinked_refs\<close>; when it is reported as loaded, the
  reference is appended to \<open>success\<close> and added to \<open>relinked_refs\<close>; and \<open>success\<close> or
  \<open>relinked_refs\<close> change only after a requested reload of that reference that returned
  without raising and left it loaded. The block requests the reload whenever the path
  exists, and each step that has a candidate, in exact-file mode and in directory-only
  mode, is that block on the candidate.
\<close>

theorem only_observed_load_counts:
  "reload_decides file_load ref st (load_and_verify fs file_load ref new_path st) \<and>
   reload_decides file_load ref st
     (snd (single_path_step fs file_load dir_only single_path ref st)) \<and>
   reload_decides file_load ref st
     (per_reference_step fs file_load dir_only conv text_of (ref, field) st) \<and>
   (new_path \<noteq> [] \<and> path_exists fs new_path \<longrightarrow>
      reload_calls (load_and_verify fs file_load ref new_path st) =
        reload_calls st @ [(new_path, ref)]) \<and>
   (objExists (scene st) ref \<and> \<not> dir_only \<longrightarrow>
      single_path_step fs file_load dir_only single_path ref st =
        (None, load_and_verify fs file_load ref single_path st)) \<and>
   (objExists (scene st) ref \<and> dir_only \<and>
    search_clean_name fs single_path ref st = Inr (clean_file_name, Some found_path) \<and>
    found_path \<noteq> [] \<longrightarrow>
      single_path_step fs file_load dir_only single_path ref st =
        (None, load_and_verify fs file_load ref found_path st)) \<and>
   (objExists (scene st) ref \<and> py_strip (text_of field) \<noteq> [] \<and> \<not> dir_only \<longrightarrow>
      per_reference_step fs file_load dir_only conv text_of (ref, field) st =
        load_and_verify fs file_load ref (convert_slashes (py_strip (text_of field)) conv) st) \<and>
   (objExists (scene st) ref \<and> py_strip (text_of field) \<noteq> [] \<and> dir_only \<and>
    isdir fs (convert_slashes (py_strip (text_of field)) conv) \<and>
    search_clean_name fs (convert_slashes (py_strip (text_of field)) conv) ref st =
      Inr (clean_file_name, Some found_path) \<and>
    found_path \<noteq> [] \<longrightarrow>
      per_reference_step fs file_load dir_only conv text_of (ref, field) st =
        load_and_verify fs file_load ref found_path st)"
proof -
  have 1: "reload_decides file_load ref st (load_and_verify fs file_load ref new_path st)"
    by (rule reload_decides_load_and_verify)
  have 2: "reload_decides file_load ref st
     (snd (single_path_step fs file_load dir_only single_path ref st))"
    by (rule reload_decides_single_path_step)
  have 3: "reload_decides file_load ref st
     (per_reference_step fs file_load dir_only conv text_of (ref, field) st)"
    by (rule reload_decides_per_reference_step)
  have 4: "new_path \<noteq> [] \<and> path_exists fs new_path \<longrightarrow>
      reload_calls (load_and_verify fs file_load ref new_path st) =
        reload_calls st @ [(new_path, ref)]"
    using load_and_verify_calls[of new_path fs file_load ref st] by blast
  have 5: "objExists (scene st) ref \<and> \<not> dir_only \<longrightarrow>
      single_path_step fs file_load dir_only single_path ref st =
        (None, load_and_verify fs file_load ref single_path st)"
    using single_path_step_exact[of st ref dir_only fs file_load single_path] by blast
  have 6: "objExists (scene st) ref \<and> dir_only \<and>
    search_clean_name fs single_path ref st = Inr (clean_file_name, Some found_path) \<and>
    found_path \<noteq> [] \<longrightarrow>
      single_path_step fs file_load dir_only single_path ref st =
        (None, load_and_verify fs file_load ref found_path st)"
    using single_path_step_found[of st ref dir_only fs single_path clean_file_name found_path
        file_load] by blast
  have 7: "objExists (scene st) ref \<and> py_strip (text_of field) \<noteq> [] \<and> \<not> dir_only \<longrightarrow>
      per_reference_step fs file_load dir_only conv text_of (ref, field) st =
        load_and_verify fs file_load ref (convert_slashes (py_strip (text_of field)) conv) st"
    using per_reference_step_exact[of st ref text_of field dir_only fs file_load conv] by blast
  have 8: "objExists (scene st) ref \<and> py_strip (text_of field) \<noteq> [] \<and> dir_only \<and>
    isdir fs (convert_slashes (py_strip (text_of field)) conv) \<and>
    search_clean_name fs (convert_slashes (py_strip (text_of field)) conv) ref st =
      Inr (clean_file_name, Some found_path) \<and>
    found_path \<noteq> [] \<longrightarrow>
      per_reference_step fs file_load dir_only conv text_of (ref, field) st =
        load_and_verify fs file_load ref found_path st"
    using per_reference_step_found[of st ref text_of field dir_only fs conv clean_file_name
        found_path file_load] by blast
  show ?thesis
    apply (rule conjI, rule 1)
    apply (rule conjI, rule 2)
    apply (rule conjI, rule 3)
    apply (rule conjI, rule 4)
    apply (rule conjI, rule 5)
    apply (rule conjI, rule 6)
    apply (rule conjI, rule 7)
    apply (rule 8)
    done
qed

theorem only_observed_load_counts_witness:
  "path_exists lib_fs ''/lib/sub/asset.ma'' \<and>
   idle_loader ''/lib/sub/asset.ma'' ''ref1'' (scene (start (broken_scene ''/old/asset.ma'') [] {})) =
     (None, broken_scene ''/old/asset.ma'') \<and>
   \<not> isLoaded (broken_scene ''/old/asset.ma'') ''ref1'' \<and>
   reload_calls (snd (single_path_step lib_fs idle_loader True ''/lib'' ''ref1''
             (start (broken_scene ''/old/asset.ma'') [] {}))) = [(''/lib/sub/asset.ma'', ''ref1'')] \<and>
   failed (snd (single_path_step lib_fs idle_loader True ''/lib'' ''ref1''
             (start (broken_scene ''/old/asset.ma'') [] {}))) =
     [''ref1: Verification failed (Loaded: False, Path: '' @ quote @ ''/old/asset.ma'' @ quote @ '')''] \<and>
   success (snd (single_path_step lib_fs idle_loader True ''/lib'' ''ref1''
             (start (broken_scene ''/old/asset.ma'') [] {}))) = [] \<and>
   relinked_refs (snd (single_path_step lib_fs idle_loader True ''/lib'' ''ref1''
             (start (broken_scene ''/old/asset.ma'') [] {}))) = {} \<and>
   failed (per_reference_step lib_fs idle_loader True True (\<lambda>f. ''/lib'') (''ref1'', ''field1'')
             (start (broken_scene ''/old/asset.ma'') [] {})) =
     [''ref1: Verification failed (Loaded: False, Path: '' @ quote @ ''/old/asset.ma'' @ quote @ '')''] \<and>
   relinked_refs (per_reference_step lib_fs idle_loader True True (\<lambda>f. ''/lib'') (''ref1'', ''field1'')
             (start (broken_scene ''/old/asset.ma'') [] {})) = {} \<and>
   isLoaded (snd (copy_loader ''/lib/sub/asset.ma'' ''ref1''
                    (scene (start (broken_scene ''/old/asset.ma'') [] {})))) ''ref1'' \<and>
   success (snd (single_path_step lib_fs copy_loader False ''/lib/sub/asset.ma'' ''ref1''
             (start (broken_scene ''/old/asset.ma'') [] {}))) = [''ref1''] \<and>
   relinked_refs (snd (single_path_step lib_fs copy_loader False ''/lib/sub/asset.ma'' ''ref1''
             (start (broken_scene ''/old/asset.ma'') [] {}))) = {''ref1''} \<and>
   success (per_reference_step lib_fs copy_loader False True (\<lambda>f. ''/lib/sub/asset.ma'')
             (''ref1'', ''field1'') (start (broken_scene ''/old/asset.ma'') [] {})) = [''ref1'']"
proof -
  let ?st = "start (broken_scene ''/old/asset.ma'') [] {}"
  let ?p = "''/lib/sub/asset.ma''"
  let ?h = "broken_scene ''/old/asset.ma''"
  let ?h' = "snd (copy_loader ?p ''ref1'' (scene ?st))"
  let ?S = "single_path_step lib_fs idle_loader True ''/lib'' ''ref1'' ?st"
  let ?P = "per_reference_step lib_fs idle_loader True True (\<lambda>f. ''/lib'') (''ref1'', ''field1'') ?st"
  let ?S2 = "single_path_step lib_fs copy_loader False ?p ''ref1'' ?st"
  let ?P2 = "per_reference_step lib_fs copy_loader False True (\<lambda>f. ?p) (''ref1'', ''field1'') ?st"
  have pe: "?p \<noteq> [] \<and> path_exists lib_fs ?p" by (simp add: lib_fs_def)
  have ex: "objExists (scene ?st) ''ref1''" by (simp add: broken_scene_def)
  have il: "idle_loader ?p ''ref1'' (scene ?st) = (None, ?h)" by (simp add: idle_loader_def)
  have nl: "\<not> isLoaded ?h ''ref1''" by (simp add: broken_scene_def)
  have cl: "copy_loader ?p ''ref1'' (scene ?st) = (None, ?h')" by (simp add: copy_loader_def)
  have ld: "isLoaded ?h' ''ref1''" by (simp add: copy_loader_def)
  have cn: "clean_name (basename ''/old/asset.ma'') = ''asset.ma''"
    using clean_plain by (simp add: basename_def)
  have sr: "search_clean_name lib_fs ''/lib'' ''ref1'' ?st = Inr (''asset.ma'', Some ?p)"
    using cn by (intro lib_search) (simp_all add: broken_scene_def)
  have sr': "search_clean_name lib_fs (convert_slashes (py_strip ((\<lambda>f. ''/lib'') ''field1'')) True)
      ''ref1'' ?st = Inr (''asset.ma'', Some ?p)"
    using sr py_strip_lib convert_lib by simp
  have tx: "py_strip ((\<lambda>f::string. ''/lib'') ''field1'') \<noteq> []"
    "isdir lib_fs (convert_slashes (py_strip ((\<lambda>f::string. ''/lib'') ''field1'')) True)"
    using py_strip_lib convert_lib by (simp_all add: lib_fs_def)
  have tp: "py_strip ((\<lambda>f::string. ?p) ''field1'') \<noteq> []"
    "convert_slashes (py_strip ((\<lambda>f::string. ?p) ''field1'')) True = ?p"
    by (simp_all add: py_strip_def is_space_def convert_slashes_def backslash_def)
  note idle = only_observed_load_counts[where file_load = idle_loader and ref = "''ref1''"
      and st = ?st and fs = lib_fs and new_path = ?p and dir_only = True
      and single_path = "''/lib''" and conv = True and text_of = "\<lambda>f. ''/lib''"
      and field = "''field1''" and clean_file_name = "''asset.ma''" and found_path = ?p]
  note copy = only_observed_load_counts[where file_load = copy_loader and ref = "''ref1''"
      and st = ?st and fs = lib_fs and new_path = ?p and dir_only = False
      and single_path = ?p and conv = True and text_of = "\<lambda>f. ?p"
      and field = "''field1''" and clean_file_name = "''asset.ma''" and found_path = ?p]
  note idle1 = idle[THEN conjunct2, THEN conjunct1, THEN conjunct1, rule_format]
  note idle2 = idle[THEN conjunct2, THEN conjunct2, THEN conjunct1, THEN conjunct1, rule_format]
  note idle4 = idle[THEN conjunct2, THEN conjunct2, THEN conjunct2, THEN conjunct1, rule_format]
  note idle6 = idle[THEN conjunct2, THEN conjunct2, THEN conjunct2, THEN conjunct2,
      THEN conjunct2, THEN conjunct1, rule_format]
  note idle8 = idle[THEN conjunct2, THEN conjunct2, THEN conjunct2, THEN conjunct2,
      THEN conjunct2, THEN conjunct2, THEN conjunct2, rule_format]
  note copy1 = copy[THEN conjunct2, THEN conjunct1, THEN conjunct2, THEN conjunct1, rule_format]
  note copy2 = copy[THEN conjunct2, THEN conjunct2, THEN conjunct1, THEN conjunct2,
      THEN conjunct1, rule_format]
  note copy4 = copy[THEN conjunct2, THEN conjunct2, THEN conjunct2, THEN conjunct1, rule_format]
  note copy5 = copy[THEN conjunct2, THEN conjunct2, THEN conjunct2, THEN conjunct2,
      THEN conjunct1, rule_format]
  note copy7 = copy[THEN conjunct2, THEN conjunct2, THEN conjunct2, THEN conjunct2,
      THEN conjunct2, THEN conjunct2, THEN conjunct1, rule_format]
  have c0: "reload_calls (load_and_verify lib_fs idle_loader ''ref1'' ?p ?st) =
      reload_calls ?st @ [(?p, ''ref1'')]"
    by (rule idle4) (rule pe)
  have sS: "?S = (None, load_and_verify lib_fs idle_loader ''ref1'' ?p ?st)"
    by (rule idle6) (insert ex sr, simp)
  with c0 have c1: "reload_calls (snd ?S) = reload_calls ?st @ [(?p, ''ref1'')]" by simp
  have a: "failed (snd ?S) =
        failed ?st @ [''ref1'' @ '': Verification failed (Loaded: False, Path: '' @ quote @
                         filename ?h ''ref1'' @ quote @ '')''] \<and>
      relink_log (snd ?S) =
        relink_log ?st @ [''Failed to relink '' @ ''ref1'' @
                       '': Verification failed (Loaded: False, Path: '' @ quote @
                       filename ?h ''ref1'' @ quote @ '')''] \<and>
      success (snd ?S) = success ?st \<and> relinked_refs (snd ?S) = relinked_refs ?st \<and>
      scene (snd ?S) = ?h"
    by (rule idle1[of ?p ?h]) (intro conjI c1 il nl)
  have sP: "?P = load_and_verify lib_fs idle_loader ''ref1'' ?p ?st"
    by (rule idle8) (insert ex tx sr', simp)
  with c0 have c2: "reload_calls ?P = reload_calls ?st @ [(?p, ''ref1'')]" by simp
  have b: "failed ?P =
        failed ?st @ [''ref1'' @ '': Verification failed (Loaded: False, Path: '' @ quote @
                         filename ?h ''ref1'' @ quote @ '')''] \<and>
      relink_log ?P =
        relink_log ?st @ [''Failed to relink '' @ ''ref1'' @
                       '': Verification failed (Loaded: False, Path: '' @ quote @
                       filename ?h ''ref1'' @ quote @ '')''] \<and>
      success ?P = success ?st \<and> relinked_refs ?P = relinked_refs ?st \<and> scene ?P = ?h"
    by (rule idle2[of ?p ?h]) (intro conjI c2 il nl)
  have d0: "reload_calls (load_and_verify lib_fs copy_loader ''ref1'' ?p ?st) =
      reload_calls ?st @ [(?p, ''ref1'')]"
    by (rule copy4) (rule pe)
  have sS2: "?S2 = (None, load_and_verify lib_fs copy_loader ''ref1'' ?p ?st)"
    by (rule copy5) (insert ex, simp)
  with d0 have d1: "reload_calls (snd ?S2) = reload_calls ?st @ [(?p, ''ref1'')]" by simp
  have c: "success (snd ?S2) = success ?st @ [''ref1''] \<and>
      relinked_refs (snd ?S2) = insert ''ref1'' (relinked_refs ?st) \<and>
      failed (snd ?S2) = failed ?st \<and> scene (snd ?S2) = ?h'"
    by (rule copy1[of ?p ?h']) (intro conjI d1 cl ld)
  have "?P2 = load_and_verify lib_fs copy_loader ''ref1''
      (convert_slashes (py_strip ((\<lambda>f::string. ?p) ''field1'')) True) ?st"
    by (rule copy7) (insert ex tp(1), simp)
  with d0 tp(2) have d2: "reload_calls ?P2 = reload_calls ?st @ [(?p, ''ref1'')]" by simp
  have d: "success ?P2 = success ?st @ [''ref1''] \<and>
      relinked_refs ?P2 = insert ''ref1'' (relinked_refs ?st) \<and>
      failed ?P2 = failed ?st \<and> scene ?P2 = ?h'"
    by (rule copy2[of ?p ?h']) (intro conjI d2 cl ld)
  have f: "filename ?h ''ref1'' = ''/old/asset.ma''" by (simp add: broken_scene_def)
  from pe il nl c1 a b ld c d show ?thesis unfolding f by (simp del: single_path_step_def)
qed

subsection \<open>The directory check\<close>



subsection \<open>The target must exist\<close>

text \<open>
  C6, as amended. Before any reload the batch checks that the candidate path exists on
  disk, as a file or as a directory (\<open>os.path.exists\<close>). If it does not, the outcome is
  the failure "Target path does not exist" and no reload is requested for that reference;
  in particular exact-file mode with a user path that does not exist. Every reload a batch
  requests is for a path that exists.
\<close>

theorem missing_target_never_reloaded:
  "(\<not> path_exists fs new_path \<longrightarrow>
      load_and_verify fs file_load ref new_path st =
        record_failure ref (''Target path does not exist: '' @ quote @ new_path @ quote) st \<and>
      reload_calls (load_and_verify fs file_load ref new_path st) = reload_calls st \<and>
      scene (load_and_verify fs file_load ref new_path st) = scene st) \<and>
   (objExists (scene st) ref \<and> py_strip (text_of field) \<noteq> [] \<and>
    \<not> path_exists fs (convert_slashes (py_strip (text_of field)) conv) \<longrightarrow>
      per_reference_step fs file_load False conv text_of (ref, field) st =
        record_failure ref
          (''Target path does not exist: '' @ quote @
             convert_slashes (py_strip (text_of field)) conv @ quote) st) \<and>
   (\<forall>c\<in>set (reload_calls (snd (run_batch fs file_load u mapping_dict st))).
      c \<in> set (reload_calls st) \<or> path_exists fs (fst c))"
proof (intro conjI impI)
  show "\<forall>c\<in>set (reload_calls (snd (run_batch fs file_load u mapping_dict st))).
      c \<in> set (reload_calls st) \<or> path_exists fs (fst c)"
    using reload_calls_run_batch[of fs file_load u mapping_dict st] by auto
qed (simp_all add: load_and_verify_missing per_reference_step_def Let_def)

theorem missing_target_never_reloaded_witness:
  "\<not> path_exists lib_fs ''/tmp/doesnotexist.ma'' \<and>
   failed (fst (relink_references lib_fs copy_loader (own_ui False ''/tmp/doesnotexist.ma'')
                  [(''ref1'', ''field1'')] (broken_scene ''/old/asset.ma'') [] {})) =
     [''ref1: Target path does not exist: '' @ quote @ ''/tmp/doesnotexist.ma'' @ quote] \<and>
   reload_calls (fst (relink_references lib_fs copy_loader (own_ui False ''/tmp/doesnotexist.ma'')
                  [(''ref1'', ''field1'')] (broken_scene ''/old/asset.ma'') [] {})) = [] \<and>
   reload_calls (snd (run_batch lib_fs copy_loader (own_ui False ''/lib/sub/asset.ma'')
                  [(''ref1'', ''field1'')] (start (broken_scene ''/old/asset.ma'') [] {}))) =
     [(''/lib/sub/asset.ma'', ''ref1'')] \<and>
   path_exists lib_fs ''/lib/sub/asset.ma''"
proof -
  let ?st = "start (broken_scene ''/old/asset.ma'') [] {}"
  let ?t = "\<lambda>f::string. ''/tmp/doesnotexist.ma''"
  have 1: "objExists (scene ?st) ''ref1''" by (simp add: broken_scene_def)
  have 2: "py_strip ''/tmp/doesnotexist.ma'' = ''/tmp/doesnotexist.ma''"
    by (simp add: py_strip_def is_space_def)
  have 3: "convert_slashes ''/tmp/doesnotexist.ma'' True = ''/tmp/doesnotexist.ma''"
    by (simp add: convert_slashes_def backslash_def)
  have 4: "\<not> path_exists lib_fs ''/tmp/doesnotexist.ma''" by (simp add: lib_fs_def)
  have "fst (relink_references lib_fs copy_loader (own_ui False ''/tmp/doesnotexist.ma'')
                  [(''ref1'', ''field1'')] (broken_scene ''/old/asset.ma'') [] {}) =
        per_reference_step lib_fs copy_loader False True ?t (''ref1'', ''field1'') ?st"
    by (simp add: relink_references_fst run_batch_own)
  also from missing_target_never_reloaded[where fs = lib_fs and st = ?st and text_of = ?t
      and field = "''field1''" and conv = True and ref = "''ref1''" and file_load = copy_loader
      and new_path = "''/tmp/doesnotexist.ma''" and u = "own_ui False ''/tmp/doesnotexist.ma''"
      and mapping_dict = "[(''ref1'', ''field1'')]"]
      1 2 3 4
  have "\<dots> = record_failure ''ref1''
          (''Target path does not exist: '' @ quote @ ''/tmp/doesnotexist.ma'' @ quote) ?st"
    by simp
  finally have a: "fst (relink_references lib_fs copy_loader (own_ui False ''/tmp/doesnotexist.ma'')
                  [(''ref1'', ''field1'')] (broken_scene ''/old/asset.ma'') [] {}) =
      record_failure ''ref1''
          (''Target path does not exist: '' @ quote @ ''/tmp/doesnotexist.ma'' @ quote) ?st" .
  have ps: "py_strip ''/lib/sub/asset.ma'' = ''/lib/sub/asset.ma''"
    by (simp add: py_strip_def is_space_def)
  have "snd (run_batch lib_fs copy_loader (own_ui False ''/lib/sub/asset.ma'')
                  [(''ref1'', ''field1'')] ?st) =
        load_and_verify lib_fs copy_loader ''ref1'' ''/lib/sub/asset.ma'' ?st"
    using 1 ps
    by (simp add: run_batch_own per_reference_step_def convert_slashes_def backslash_def)
  then have b: "reload_calls (snd (run_batch lib_fs copy_loader (own_ui False ''/lib/sub/asset.ma'')
                  [(''ref1'', ''field1'')] ?st)) = [(''/lib/sub/asset.ma'', ''ref1'')]"
    by (simp add: load_and_verify_def lib_fs_def copy_loader_def)
  from missing_target_never_reloaded[where fs = lib_fs and st = ?st and text_of = ?t
      and field = "''field1''" and conv = True and ref = "''ref1''" and file_load = copy_loader
      and new_path = "''/tmp/doesnotexist.ma''" and u = "own_ui False ''/lib/sub/asset.ma''"
      and mapping_dict = "[(''ref1'', ''field1'')]"]
  have "\<forall>c\<in>set (reload_calls (snd (run_batch lib_fs copy_loader (own_ui False ''/lib/sub/asset.ma'')
                  [(''ref1'', ''field1'')] ?st))).
      c \<in> set (reload_calls ?st) \<or> path_exists lib_fs (fst c)"
    by blast
  then have c: "path_exists lib_fs ''/lib/sub/asset.ma''"
    unfolding b by simp
  from a b c 4 show ?thesis by simp
qed

text \<open>
  The check is not that the candidate is a file: in exact-file mode the directory \<open>/lib\<close>
  passes it, and the host is asked to reload the reference from \<open>/lib\<close>.
\<close>

theorem directory_target_counterexample:
  "isdir lib_fs ''/lib'' \<and>
   reload_calls (fst (relink_references lib_fs copy_loader (own_ui False ''/lib'')
                  [(''ref1'', ''field1'')] (broken_scene ''/old/asset.ma'') [] {})) =
     [(''/lib'', ''ref1'')]"
proof -
  have "fst (relink_references lib_fs copy_loader (own_ui False ''/lib'')
                  [(''ref1'', ''field1'')] (broken_scene ''/old/asset.ma'') [] {}) =
        load_and_verify lib_fs copy_loader ''ref1'' ''/lib'' (start (broken_scene ''/old/asset.ma'') [] {})"
    using py_strip_lib convert_lib
    by (simp add: relink_references_fst run_batch_own per_reference_step_def broken_scene_def)
  then show ?thesis
    by (simp add: load_and_verify_def lib_fs_def copy_loader_def)
qed

subsection \<open>A failure that stops the batch\<close>

text \<open>
  C7. The claim is that no failure for one reference aborts the batch. In single-path,
  directory-only mode the query of the unresolved name and the directory search stand
  outside any \<open>try\<close> (lines 195 and 201): with a shared path that holds a null character, whose
  walk raises, the exception leaves \<open>relink_references\<close> at the first reference. No outcome and
  no log entry is recorded for it, the second reference is never processed and no dialog
  is opened. In per-reference mode, where lines 251-270 guard the same calls, the same
  input gives one recorded failure for each reference.
\<close>

theorem single_path_raise_aborts:
  "broken_refs lib_fs two_scene = [''ref1'', ''ref2''] \<and>
   walk lib_fs nul_path = ([], Some ''embedded null byte'') \<and>
   snd (relink_references lib_fs copy_loader (shared_ui True nul_path) [] two_scene [] {}) =
     Inl ''embedded null byte'' \<and>
   success (fst (relink_references lib_fs copy_loader (shared_ui True nul_path) [] two_scene [] {})) =
     [] \<and>
   failed (fst (relink_references lib_fs copy_loader (shared_ui True nul_path) [] two_scene [] {})) =
     [] \<and>
   relink_log (fst (relink_references lib_fs copy_loader (shared_ui True nul_path) [] two_scene [] {})) =
     [] \<and>
   snd (relink_references lib_fs copy_loader (own_ui True nul_path)
          [(''ref1'', ''field1''), (''ref2'', ''field2'')] two_scene [] {}) \<noteq>
     Inl ''embedded null byte'' \<and>
   failed (fst (relink_references lib_fs copy_loader (own_ui True nul_path)
          [(''ref1'', ''field1''), (''ref2'', ''field2'')] two_scene [] {})) =
     [''ref1: Provided directory does not exist: '' @ nul_path,
      ''ref2: Provided directory does not exist: '' @ nul_path]"
proof -
  let ?st = "start two_scene [] {}"
  have br: "broken_refs lib_fs two_scene = [''ref1'', ''ref2'']"
    by (simp add: broken_refs_def two_scene_def lib_fs_def)
  have wk: "walk lib_fs nul_path = ([], Some ''embedded null byte'')"
    by (simp add: lib_fs_def nul_path_def)
  have ne: "nul_path \<noteq> []" by (simp add: nul_path_def)
  have "search_clean_name lib_fs nul_path ''ref1'' ?st = Inl ''embedded null byte''"
    using wk by (simp add: search_clean_name_def Let_def find_file_in_directory_def two_scene_def)
  then have step: "single_path_step lib_fs copy_loader True nul_path ''ref1'' ?st =
      (Some ''embedded null byte'', ?st)"
    by (simp add: single_path_step_def two_scene_def)
  have "run_batch lib_fs copy_loader (shared_ui True nul_path) [] ?st =
      single_path_loop lib_fs copy_loader True nul_path [''ref1'', ''ref2''] ?st"
    using br py_strip_nul_path convert_nul_path ne by (simp add: run_batch_shared)
  also have "\<dots> = (Some ''embedded null byte'', ?st)"
    by (simp add: step)
  finally have "relink_references lib_fs copy_loader (shared_ui True nul_path) [] two_scene [] {} =
      (?st, Inl ''embedded null byte'')"
    by (simp add: relink_references_def)
  then have shared:
    "snd (relink_references lib_fs copy_loader (shared_ui True nul_path) [] two_scene [] {}) =
       Inl ''embedded null byte''"
    "success (fst (relink_references lib_fs copy_loader (shared_ui True nul_path) [] two_scene [] {})) = []"
    "failed (fst (relink_references lib_fs copy_loader (shared_ui True nul_path) [] two_scene [] {})) = []"
    "relink_log (fst (relink_references lib_fs copy_loader (shared_ui True nul_path) [] two_scene [] {})) = []"
    by simp_all
  have nd: "\<not> isdir lib_fs nul_path" by (simp add: lib_fs_def nul_path_def)
  have own_step: "per_reference_step lib_fs copy_loader True True (\<lambda>f. nul_path) (r, f) s =
      record_failure r (''Provided directory does not exist: '' @ nul_path) s"
    if "objExists (scene s) r" for r f s
    using that nd py_strip_nul_path convert_nul_path ne
    by (simp add: per_reference_step_def Let_def)
  have "run_batch lib_fs copy_loader (own_ui True nul_path)
          [(''ref1'', ''field1''), (''ref2'', ''field2'')] ?st =
      (None, record_failure ''ref2'' (''Provided directory does not exist: '' @ nul_path)
               (record_failure ''ref1'' (''Provided directory does not exist: '' @ nul_path) ?st))"
    by (simp add: run_batch_own own_step two_scene_def)
  then have own:
    "snd (relink_references lib_fs copy_loader (own_ui True nul_path)
          [(''ref1'', ''field1''), (''ref2'', ''field2'')] two_scene [] {}) \<noteq>
       Inl ''embedded null byte''"
    "failed (fst (relink_references lib_fs copy_loader (own_ui True nul_path)
          [(''ref1'', ''field1''), (''ref2'', ''field2'')] two_scene [] {})) =
     [''ref1: Provided directory does not exist: '' @ nul_path,
      ''ref2: Provided directory does not exist: '' @ nul_path]"
    by (simp_all add: relink_references_def)
  from br wk shared own show ?thesis by blast
qed

subsection \<open>Stale handles\<close>

text \<open>
  C8. A reference that the host reports as no longer existing is skipped in both modes:
  no outcome, no log entry, no reload; only a line is printed. The loop goes on with the
  remaining references.
\<close>

theorem stale_handle_skipped:
  "\<not> objExists (scene st) ref \<Longrightarrow>
     single_path_step fs file_load dir_only single_path ref st = (None, skip_missing ref st) \<and>
     per_reference_step fs file_load dir_only conv text_of (ref, field) st = skip_missing ref st \<and>
     success (skip_missing ref st) = success st \<and>
     failed (skip_missing ref st) = failed st \<and>
     relink_log (skip_missing ref st) = relink_log st \<and>
     relinked_refs (skip_missing ref st) = relinked_refs st \<and>
     reload_calls (skip_missing ref st) = reload_calls st \<and>
     scene (skip_missing ref st) = scene st \<and>
     single_path_loop fs file_load dir_only single_path (ref # ys) st =
       single_path_loop fs file_load dir_only single_path ys (skip_missing ref st) \<and>
     fold (per_reference_step fs file_load dir_only conv text_of) ((ref, field) # ns) st =
       fold (per_reference_step fs file_load dir_only conv text_of) ns (skip_missing ref st)"
  by (simp add: single_path_step_def per_reference_step_def)

theorem stale_handle_skipped_witness:
  "\<not> objExists (scene (start stale_scene [] {})) ''ref1'' \<and>
   broken_refs lib_fs stale_scene = [''ref1'', ''ref2''] \<and>
   success (fst (relink_references lib_fs copy_loader (shared_ui True ''/lib'') [] stale_scene [] {})) =
     [''ref2''] \<and>
   failed (fst (relink_references lib_fs copy_loader (shared_ui True ''/lib'') [] stale_scene [] {})) =
     [] \<and>
   relink_log (fst (relink_references lib_fs copy_loader (shared_ui True ''/lib'') [] stale_scene [] {})) =
     [''Successfully relinked ref2 to /lib/sub/asset.ma{2}'']"
proof -
  let ?st = "start stale_scene [] {}"
  let ?loop = "single_path_loop lib_fs copy_loader True ''/lib''"
  have 1: "\<not> objExists (scene ?st) ''ref1''"
    by (simp add: stale_scene_def)
  have br: "broken_refs lib_fs stale_scene = [''ref1'', ''ref2'']"
    by (simp add: broken_refs_def stale_scene_def two_scene_def lib_fs_def)
  have cn: "clean_name (basename ''/old/asset.ma'') = ''asset.ma''"
    using clean_plain by (simp add: basename_def)
  from stale_handle_skipped[OF 1, where fs = lib_fs and file_load = copy_loader
      and dir_only = True and single_path = "''/lib''" and conv = True and text_of = "\<lambda>f. []"
      and field = "[]" and ys = "[''ref2'']" and ns = "[]"]
  have run: "?loop [''ref1'', ''ref2''] ?st = ?loop [''ref2''] (skip_missing ''ref1'' ?st)"
    by blast
  have sr: "search_clean_name lib_fs ''/lib'' ''ref2'' (skip_missing ''ref1'' ?st) =
      Inr (''asset.ma'', Some ''/lib/sub/asset.ma'')"
    using cn by (intro lib_search) (simp_all add: stale_scene_def two_scene_def)
  have step: "single_path_step lib_fs copy_loader True ''/lib'' ''ref2'' (skip_missing ''ref1'' ?st) =
      (None, load_and_verify lib_fs copy_loader ''ref2'' ''/lib/sub/asset.ma''
               (skip_missing ''ref1'' ?st))"
    using sr by (intro single_path_step_found) (simp_all add: stale_scene_def)
  have "run_batch lib_fs copy_loader (shared_ui True ''/lib'') [] ?st = ?loop [''ref1'', ''ref2''] ?st"
    using br py_strip_lib convert_lib by (simp add: run_batch_shared)
  also have "\<dots> = (None, load_and_verify lib_fs copy_loader ''ref2'' ''/lib/sub/asset.ma''
                     (skip_missing ''ref1'' ?st))"
    unfolding run by (simp add: step)
  finally have "fst (relink_references lib_fs copy_loader (shared_ui True ''/lib'') [] stale_scene [] {}) =
      load_and_verify lib_fs copy_loader ''ref2'' ''/lib/sub/asset.ma'' (skip_missing ''ref1'' ?st)"
    by (simp add: relink_references_fst)
  then show ?thesis
    using 1 br
    by (simp add: load_and_verify_def copy_loader_def lib_fs_def)
qed

subsection \<open>The summary\<close>

text \<open>
  C9. A summary longer than 1000 characters is shown as its first 1000 characters followed
  by the truncation marker; a summary of at most 1000 characters is shown unmodified (an
  empty one opens no dialog). A batch that ends without an exception shows the summary of
  its outcomes in the dialog; one that an exception leaves opens none.
\<close>

theorem summary_truncated:
  "(length message > 1000 \<longrightarrow>
      confirmDialog message =
        Some (take 1000 message @ [newline] @ ''...(message truncated)'') \<and>
      length (take 1000 message) = 1000) \<and>
   (message \<noteq> [] \<and> length message \<le> 1000 \<longrightarrow> confirmDialog message = Some message) \<and>
   snd (relink_references fs file_load u mapping_dict h log rs) =
     (case fst (run_batch fs file_load u mapping_dict (start h log rs)) of
        Some e \<Rightarrow> Inl e
      | None \<Rightarrow>
          Inr (confirmDialog
                 (summary_message
                    (success (fst (relink_references fs file_load u mapping_dict h log rs)))
                    (failed (fst (relink_references fs file_load u mapping_dict h log rs))))))"
  by (simp add: confirmDialog_def max_len_def relink_references_def split: prod.splits option.splits)

theorem summary_truncated_witness:
  "length (replicate 1001 (CHR ''x'')) > 1000 \<and>
   confirmDialog (replicate 1001 (CHR ''x'')) =
     Some (replicate 1000 (CHR ''x'') @ [newline] @ ''...(message truncated)'') \<and>
   ''ref1'' \<noteq> [] \<and> length ''ref1'' \<le> 1000 \<and> confirmDialog ''ref1'' = Some ''ref1''"
proof -
  have 1: "length (replicate 1001 (CHR ''x'')) > 1000" by simp
  have 2: "take 1000 (replicate 1001 (CHR ''x'')) = replicate 1000 (CHR ''x'')" by simp
  have 3: "''ref1'' \<noteq> [] \<and> length ''ref1'' \<le> 1000" by simp
  from summary_truncated[of "replicate 1001 (CHR ''x'')"] 1
  have a: "confirmDialog (replicate 1001 (CHR ''x'')) =
        Some (take 1000 (replicate 1001 (CHR ''x'')) @ [newline] @ ''...(message truncated)'')"
    by blast
  from summary_truncated[of "''ref1''"] 3 have b: "confirmDialog ''ref1'' = Some ''ref1''"
    by blast
  from a b 1 2 3 show ?thesis by simp
qed

subsection \<open>Blank input\<close>

text \<open>
  C10. In per-reference mode, a reference whose text field is empty after stripping, that
  is, empty or made of white space only, gets no outcome, no log entry and no reload, and
  the loop goes on with the remaining references.
\<close>

theorem blank_input_skipped:
  "(py_strip t = [] \<longleftrightarrow> (\<forall>c\<in>set t. is_space c)) \<and>
   (py_strip (text_of field) = [] \<longrightarrow>
      success (per_reference_step fs file_load dir_only conv text_of (ref, field) st) = success st \<and>
      failed (per_reference_step fs file_load dir_only conv text_of (ref, field) st) = failed st \<and>
      relink_log (per_reference_step fs file_load dir_only conv text_of (ref, field) st) =
        relink_log st \<and>
      relinked_refs (per_reference_step fs file_load dir_only conv text_of (ref, field) st) =
        relinked_refs st \<and>
      reload_calls (per_reference_step fs file_load dir_only conv text_of (ref, field) st) =
        reload_calls st \<and>
      scene (per_reference_step fs file_load dir_only conv text_of (ref, field) st) = scene st \<and>
      fold (per_reference_step fs file_load dir_only conv text_of) ((ref, field) # ns) st =
        fold (per_reference_step fs file_load dir_only conv text_of) ns
          (if objExists (scene st) ref then st else skip_missing ref st))"
  using py_strip_blank[of t] by (simp add: per_reference_step_def Let_def)

theorem blank_input_skipped_witness:
  "py_strip [CHR '' '', CHR 0x09, CHR '' ''] = [] \<and>
   success (fst (relink_references lib_fs copy_loader (own_ui True [CHR '' '', CHR 0x09, CHR '' ''])
                   [(''ref1'', ''field1'')] (broken_scene ''/old/asset.ma'') [] {})) = [] \<and>
   failed (fst (relink_references lib_fs copy_loader (own_ui True [CHR '' '', CHR 0x09, CHR '' ''])
                   [(''ref1'', ''field1'')] (broken_scene ''/old/asset.ma'') [] {})) = [] \<and>
   relink_log (fst (relink_references lib_fs copy_loader (own_ui True [CHR '' '', CHR 0x09, CHR '' ''])
                   [(''ref1'', ''field1'')] (broken_scene ''/old/asset.ma'') [] {})) = []"
proof -
  let ?blank = "[CHR '' '', CHR 0x09, CHR '' '']"
  let ?st = "start (broken_scene ''/old/asset.ma'') [] {}"
  have 1: "py_strip ((\<lambda>f::string. ?blank) ''field1'') = []"
    by (simp add: py_strip_def is_space_def)
  have "fst (relink_references lib_fs copy_loader (own_ui True ?blank)
                   [(''ref1'', ''field1'')] (broken_scene ''/old/asset.ma'') [] {}) =
        per_reference_step lib_fs copy_loader True True (\<lambda>f. ?blank) (''ref1'', ''field1'') ?st"
    by (simp add: relink_references_fst run_batch_own)
  moreover from blank_input_skipped[where text_of = "\<lambda>f. ?blank" and field = "''field1''"
      and fs = lib_fs and file_load = copy_loader and dir_only = True and conv = True
      and ref = "''ref1''" and st = ?st and t = "[]" and ns = "[]"] 1
  have "success (per_reference_step lib_fs copy_loader True True (\<lambda>f. ?blank) (''ref1'', ''field1'') ?st) =
          success ?st \<and>
        failed (per_reference_step lib_fs copy_loader True True (\<lambda>f. ?blank) (''ref1'', ''field1'') ?st) =
          failed ?st \<and>
        relink_log (per_reference_step lib_fs copy_loader True True (\<lambda>f. ?blank) (''ref1'', ''field1'') ?st) =
          relink_log ?st"
    by blast
  ultimately show ?thesis using 1 by simp
qed

end
